theory Spec2Isabelle
  imports Complex_Main "HOL-Library.Sublist" "HOL-Library.Multiset" "HOL-Library.AList"
    "HOL-Library.Option_ord" "HOL-Library.Product_Lexorder"
begin

section \<open>Strings\<close>

text \<open>
  Python strings are modelled as \<^typ>\<open>string\<close> over ASCII text. \<open>str.lower\<close> and
  \<open>str.upper\<close> are modelled on the 26 ASCII letters and leave every other character as
  it is (Python's full Unicode case mapping is outside this model). \<open>str.strip()\<close> removes
  the leading and trailing characters for which \<open>str.isspace\<close> holds; for code points
  below 256 these are 9 to 13, 28 to 32, 133 and 160.
\<close>

definition ascii_uppercase :: string where
  "ascii_uppercase = ''ABCDEFGHIJKLMNOPQRSTUVWXYZ''"

definition ascii_lowercase :: string where
  "ascii_lowercase = ''abcdefghijklmnopqrstuvwxyz''"

definition lower_char :: "char \<Rightarrow> char" where
  "lower_char c = (case map_of (zip ascii_uppercase ascii_lowercase) c of
                     Some l \<Rightarrow> l | None \<Rightarrow> c)"

definition upper_char :: "char \<Rightarrow> char" where
  "upper_char c = (case map_of (zip ascii_lowercase ascii_uppercase) c of
                     Some u \<Rightarrow> u | None \<Rightarrow> c)"

definition lower :: "string \<Rightarrow> string" where
  "lower s = map lower_char s"

definition upper :: "string \<Rightarrow> string" where
  "upper s = map upper_char s"

definition isspace :: "char \<Rightarrow> bool" where
  "isspace c = (c \<in> set [CHR 0x09, CHR 0x0A, CHR 0x0B, CHR 0x0C, CHR 0x0D,
                          CHR 0x1C, CHR 0x1D, CHR 0x1E, CHR 0x1F, CHR 0x20,
                          CHR 0x85, CHR 0xA0])"

definition lstrip :: "string \<Rightarrow> string" where
  "lstrip s = dropWhile isspace s"

definition strip :: "string \<Rightarrow> string" where
  "strip s = rev (lstrip (rev (lstrip s)))"

text \<open>\<open>s.startswith(p)\<close>.\<close>

definition startswith :: "string \<Rightarrow> string \<Rightarrow> bool" where
  "startswith s p = (take (length p) s = p)"

text \<open>\<open>k in s\<close> on strings: \<open>k\<close> occurs in \<open>s\<close> as a contiguous substring.\<close>

fun str_in :: "string \<Rightarrow> string \<Rightarrow> bool" where
  "str_in k [] = (k = [])"
| "str_in k (c # s) = (startswith (c # s) k \<or> str_in k s)"

text \<open>\<open>s.replace(old, '')\<close> for a one-character \<open>old\<close>: every occurrence is removed.\<close>

definition remove_char :: "char \<Rightarrow> string \<Rightarrow> string" where
  "remove_char old s = filter (\<lambda>c. c \<noteq> old) s"

section \<open>classifier.py\<close>

text \<open>
  \<open>CATEGORY_KEYWORDS\<close> is a dict literal; Python dicts iterate in insertion order, so it
  is an association list in the order of the source. Its keys are pairwise distinct
  (lemma \<open>CATEGORY_KEYWORDS_keys_distinct\<close>), so the list and the dict agree.
\<close>

definition CATEGORY_KEYWORDS :: "(string \<times> string list) list" where
  "CATEGORY_KEYWORDS = [
    (''Food & Dining'', [
        ''restaurant'', ''cafe'', ''coffee'', ''starbucks'', ''dunkin'', ''mcdonald'',
        ''burger'', ''pizza'', ''chipotle'', ''subway'', ''taco'', ''doordash'',
        ''ubereats'', ''grubhub'', ''postmates'', ''seamless'', ''delivery'',
        ''diner'', ''bistro'', ''grill'', ''bar'', ''pub'', ''kitchen'', ''food'',
        ''dining'', ''eatery'', ''panera'', ''chick-fil-a'', ''chick fil a'', ''wendys'', ''kfc'',
        ''panda express'', ''taco bell'', ''coffee hut'', ''dairy queen'',
        ''in n out'', ''domino'', ''yogurtland'', ''coldstone'', ''ice cream'',
        ''wingstop'', ''cajun'', ''burrito'', ''snack'', ''salt and straw'',
        ''koja kitchen'', ''purple kow'', ''yogurt park'', ''mochiholic'',
        ''bricks cafe'', ''sweet spot'', ''matcha cafe'', ''ice monster'',
        ''angry chickz'', ''campus burgers'', ''too good to go'']),
    (''Groceries'', [
        ''grocery'', ''supermarket'', ''whole foods'', ''trader joe'', ''trader jo'',
        ''safeway'', ''kroger'', ''walmart'', ''target'', ''costco'', ''sam's club'', ''aldi'',
        ''publix'', ''wegmans'', ''heb'', ''market'', ''fresh'', ''food lion'',
        ''giant eagle'', ''stop & shop'', ''harris teeter'', ''sprouts'',
        ''dollar tree'', ''dollartre'']),
    (''Transportation'', [
        ''uber'', ''lyft'', ''taxi'', ''cab'', ''transit'', ''subway'', ''metro'',
        ''bus'', ''train'', ''parking'', ''gas'', ''fuel'', ''shell'', ''exxon'',
        ''chevron'', ''bp'', ''mobil'', ''citgo'', ''speedway'', ''wawa'',
        ''car wash'', ''auto'', ''vehicle'', ''dmv'', ''registration'', ''toll'',
        ''sokwik'']),
    (''Entertainment'', [
        ''movie'', ''cinema'', ''theater'', ''theatre'', ''netflix'', ''hulu'',
        ''spotify'', ''apple music'', ''disney'', ''hbo'',
        ''youtube'', ''twitch'', ''game'', ''gaming'', ''steam'', ''playstation'',
        ''xbox'', ''nintendo'', ''concert'', ''ticket'', ''ticketmaster'',
        ''stubhub'', ''sports event'', ''gym'', ''fitness'', ''club'', ''membership'']),
    (''Gambling/Sports Betting'', [
        ''prizepicks'', ''underdog'', ''draftkings'', ''fanduel'', ''betmgm'',
        ''caesars'', ''pointsbet'', ''bet365'', ''unibet'', ''bovada'',
        ''mybookie'', ''bet online'', ''sports bet'', ''casino'', ''poker'',
        ''slots'', ''lottery'', ''scratch'', ''gambling'']),
    (''Subscriptions'', [
        ''whop'', ''patreon'', ''onlyfans'', ''substack'', ''chatgpt'', ''openai'',
        ''adobe'', ''office 365'', ''icloud'', ''dropbox'', ''google one'',
        ''youtube premium'', ''spotify premium'', ''apple one'', ''microsoft 365'',
        ''creative cloud'', ''zoom'', ''slack'', ''notion'', ''canva'',
        ''grammarly'', ''medium'', ''scribd'', ''prime video'', ''walter ai'',
        ''agent eo premium'', ''worldfinancialgroup'', ''amazon prime'',
        ''apple.com bill'', ''apple com bill'', ''apple bill'']),
    (''Transfers'', [
        ''apple cash'', ''apple pay balance'', ''venmo'', ''zelle'', ''paypal'',
        ''cash app'', ''google pay'', ''facebook pay'', ''transfer to'',
        ''transfer from'', ''pmnt sent'', ''pmnt received'', ''p2p transfer'',
        ''peer to peer'', ''balance add'', ''balance transfer'', ''pc transfer'',
        ''ppd'', ''cashout'', ''direct pay'', ''direct deposit'']),
    (''Shopping'', [
        ''amazon'', ''ebay'', ''etsy'', ''shop'', ''store'', ''mall'', ''retail'',
        ''best buy'', ''apple store'', ''nike'', ''adidas'', ''macy'', ''nordstrom'',
        ''gap'', ''zara'', ''h&m'', ''forever 21'', ''old navy'', ''tj maxx'',
        ''marshalls'', ''ross'', ''kohls'', ''jcpenney'', ''sephora'', ''ulta'',
        ''home depot'', ''lowes'', ''ikea'', ''furniture'', ''clothing'', ''apparel'',
        ''cscsw'', ''temu'', ''shein'', ''wish'', ''aliexpress'', ''wayfair'',
        ''fashionnova'', ''tiktok shop'', ''shop miss a'']),
    (''Bills & Utilities'', [
        ''electric'', ''electricity'', ''power'', ''gas company'', ''water'',
        ''internet'', ''cable'', ''phone'', ''mobile'', ''verizon'', ''at&t'',
        ''t-mobile'', ''sprint'', ''comcast'', ''xfinity'', ''spectrum'',
        ''utility'', ''bill payment'', ''insurance'', ''rent'', ''mortgage'',
        ''loan'', ''credit card payment'', ''bank fee'']),
    (''Health'', [
        ''pharmacy'', ''cvs'', ''walgreens'', ''rite aid'', ''medical'', ''hospital'',
        ''doctor'', ''clinic'', ''health'', ''dental'', ''dentist'', ''vision'',
        ''optometry'', ''prescription'', ''medicine'', ''wellness'', ''therapy'',
        ''counseling'', ''urgent care'', ''emergency'', ''lab'', ''test'']),
    (''Income'', [
        ''salary'', ''payroll'', ''deposit'', ''direct deposit'', ''payment received'',
        ''refund'', ''reimbursement'', ''bonus'', ''dividend'',
        ''interest'', ''cashback'', ''reward'', ''credit via trust''])
  ]"

text \<open>
  The inner loop of \<open>classify\<close>: \<open>score\<close> starts at 0 and grows by \<open>len(keyword)\<close> for
  each keyword of the list with \<open>keyword.lower() in description_lower\<close>.
\<close>

definition keyword_score :: "string \<Rightarrow> string list \<Rightarrow> nat" where
  "keyword_score description_lower keywords =
     fold (\<lambda>keyword score.
             if str_in (lower keyword) description_lower then score + length keyword
             else score)
          keywords 0"

text \<open>
  \<open>max(items, key=f)\<close> on a non-empty iterable: the running best is replaced only by an
  item whose key is strictly greater, so the first item with the greatest key is returned.
\<close>

fun py_max :: "('a \<Rightarrow> nat) \<Rightarrow> 'a \<Rightarrow> 'a list \<Rightarrow> 'a" where
  "py_max key best [] = best"
| "py_max key best (x # xs) = py_max key (if key x > key best then x else best) xs"

text \<open>
  \<open>classify\<close>. The amount is a Python float; it is modelled as a real number (the only
  use of it is the comparison with 0; NaN is outside the model). \<open>category_scores\<close> is
  the dict of scores in the order of \<open>CATEGORY_KEYWORDS\<close>; \<open>max\<close> runs over its keys with
  the score as key, which is \<open>py_max\<close> over the (category, score) pairs by score.
\<close>

definition classify :: "string \<Rightarrow> real \<Rightarrow> string" where
  "classify description amount =
     (if amount > 0 then ''Income''
      else
        let description_lower = lower description;
            category_scores =
              map (\<lambda>(category, keywords). (category, keyword_score description_lower keywords))
                  CATEGORY_KEYWORDS
        in case category_scores of
             [] \<Rightarrow> ''Other''
           | first # rest \<Rightarrow>
               let best = py_max snd first rest
               in if snd best > 0 then fst best else ''Other'')"

text \<open>\<open>classify_batch\<close>: a list comprehension over \<open>zip(descriptions, amounts)\<close>.\<close>

definition classify_batch :: "string list \<Rightarrow> real list \<Rightarrow> string list" where
  "classify_batch descriptions amounts =
     map (\<lambda>(desc, amt). classify desc amt) (zip descriptions amounts)"

text \<open>
  The classifier as section 4.7 of the specification words it, for comparison with
  \<open>classify\<close>: the score of a category is the sum of the lengths of the keywords of its
  list that occur in the lower-cased description, each keyword once (a sum over a set); the
  result is the first category of the table whose score is the maximum, or \<open>Other\<close> when
  the maximum is 0.
\<close>

definition spec_score :: "string \<Rightarrow> string list \<Rightarrow> nat" where
  "spec_score d keywords = (\<Sum>k \<in> {k \<in> set keywords. sublist k d}. length k)"

definition spec_classify :: "string \<Rightarrow> string" where
  "spec_classify description =
     (let d = lower description;
          scores = map (\<lambda>(category, keywords). (category, spec_score d keywords))
                       CATEGORY_KEYWORDS;
          m = Max (snd ` set scores)
      in if m = 0 then ''Other''
         else case find (\<lambda>(category, s). s = m) scores of
                Some (category, s) \<Rightarrow> category
              | None \<Rightarrow> ''Other'')"

section \<open>utils.py: merchant names and header detection\<close>

definition prefixes_to_remove :: "string list" where
  "prefixes_to_remove = [
     ''DEBIT CARD PURCHASE - '',
     ''PURCHASE AUTHORIZED ON '',
     ''CARD PURCHASE - '',
     ''PAYMENT TO '',
     ''TRANSFER TO '',
     ''TRANSFER FROM '']"

text \<open>
  The loop \<open>for prefix in prefixes_to_remove\<close>: it has no \<open>break\<close>, so it visits every
  prefix, each time testing the description as the earlier iterations left it.
\<close>

fun remove_prefixes :: "string list \<Rightarrow> string \<Rightarrow> string" where
  "remove_prefixes [] description = description"
| "remove_prefixes (pfx # rest) description =
     remove_prefixes rest
       (if startswith description pfx then drop (length pfx) description
        else description)"

text \<open>The last two lines of \<open>extract_merchant_name\<close>: \<open>[:50].strip()\<close> and the default.\<close>

definition truncate_or_unknown :: "string \<Rightarrow> string" where
  "truncate_or_unknown description =
     (let description = strip (take 50 description)
      in if description \<noteq> [] then description else ''Unknown'')"

definition extract_merchant_name :: "string \<Rightarrow> string" where
  "extract_merchant_name description =
     truncate_or_unknown (remove_prefixes prefixes_to_remove (strip (upper description)))"

text \<open>
  Section 4.8 of the specification as it is worded: only the first prefix of the list that
  the description starts with is stripped, and the search stops there.
\<close>

fun spec_strip_first_prefix :: "string list \<Rightarrow> string \<Rightarrow> string" where
  "spec_strip_first_prefix [] description = description"
| "spec_strip_first_prefix (pfx # rest) description =
     (if startswith description pfx then drop (length pfx) description
      else spec_strip_first_prefix rest description)"

definition spec_extract_merchant_name :: "string \<Rightarrow> string" where
  "spec_extract_merchant_name description =
     truncate_or_unknown
       (spec_strip_first_prefix prefixes_to_remove (strip (upper description)))"

definition required_keywords :: "string list" where
  "required_keywords = [''date'', ''description'', ''amount'']"

text \<open>
  The body of the outer loop of \<open>detect_header_row\<close>: the number of required keywords
  that occur in some cell of the lower-cased, stripped row.
\<close>

definition count_matches :: "string list \<Rightarrow> nat" where
  "count_matches row =
     (let row_lower = map (\<lambda>cell. strip (lower cell)) row
      in fold (\<lambda>keyword matches.
                 if list_ex (\<lambda>cell. str_in keyword cell) row_lower then matches + 1
                 else matches)
              required_keywords 0)"

fun scan_rows :: "nat \<Rightarrow> string list list \<Rightarrow> nat" where
  "scan_rows idx [] = 0"
| "scan_rows idx (row # rows) =
     (if count_matches row = 3 then idx else scan_rows (Suc idx) rows)"

text \<open>
  \<open>detect_header_row\<close>. The argument is what reading the upload gives: \<open>None\<close> when
  decoding or the CSV reader raises (the \<open>except\<close> branch returns 0), otherwise the rows
  the reader yields, of which the loop keeps the first 20.
\<close>

definition detect_header_row :: "string list list option \<Rightarrow> nat" where
  "detect_header_row uploaded_file =
     (case uploaded_file of
        None \<Rightarrow> 0
      | Some reader \<Rightarrow> scan_rows 0 (take 20 reader))"

text \<open>
  Section 4.1 of the specification as it is worded: a row is a header when each of the
  three keywords occurs, ignoring case, as a substring of some cell of the row.
\<close>

definition spec_is_header :: "string list \<Rightarrow> bool" where
  "spec_is_header row =
     (\<forall>keyword \<in> set [''date'', ''description'', ''amount''].
        \<exists>cell \<in> set row. sublist keyword (lower cell))"

section \<open>utils.py: tables\<close>

text \<open>
  A raw \<open>DataFrame\<close>, as \<open>read_csv\<close> gives it: the column labels (duplicates are
  possible), the index labels, and one list of cells for each column. The cell type \<open>'c\<close>
  is left open; the pandas conversions applied to cells are parameters of the model.
\<close>

record ('i, 'c) dataframe =
  columns :: "string list"
  index :: "'i list"
  cols :: "'c list list"

definition date_variations :: "string list" where
  "date_variations = [
     ''date'', ''posted date'', ''transaction date'', ''post date'', ''trans date'',
     ''posting date'', ''trans_date'', ''posted_date'', ''transaction_date'']"

definition description_variations :: "string list" where
  "description_variations = [
     ''description'', ''desc'', ''merchant'', ''transaction description'',
     ''trans description'', ''details'', ''memo'', ''payee'', ''name'',
     ''transaction_description'', ''trans_description'']"

definition amount_variations :: "string list" where
  "amount_variations = [
     ''amount'', ''amt'', ''transaction amount'', ''trans amount'', ''value'',
     ''debit'', ''credit'', ''transaction_amount'', ''trans_amount'']"

text \<open>
  One iteration of \<open>for col in df_normalized.columns\<close>. \<open>column_mapping\<close> is a dict
  from source column names to canonical names, kept as an association list in insertion
  order; \<open>'date' not in column_mapping\<close> tests the keys of the dict.
\<close>

definition normalize_step :: "string \<Rightarrow> (string \<times> string) list \<Rightarrow> (string \<times> string) list" where
  "normalize_step col column_mapping =
     (let col_lower = strip (lower col)
      in if col_lower \<in> set date_variations \<or> str_in ''date'' col_lower then
           (if map_of column_mapping ''date'' = None
            then AList.update col ''date'' column_mapping else column_mapping)
         else if col_lower \<in> set description_variations \<or> str_in ''description'' col_lower
                 \<or> str_in ''merchant'' col_lower then
           (if map_of column_mapping ''description'' = None
            then AList.update col ''description'' column_mapping else column_mapping)
         else if col_lower \<in> set amount_variations \<or> str_in ''amount'' col_lower then
           (if map_of column_mapping ''amount'' = None
            then AList.update col ''amount'' column_mapping else column_mapping)
         else column_mapping)"

definition normalize_column_names :: "('i, 'c) dataframe \<Rightarrow> ('i, 'c) dataframe" where
  "normalize_column_names df =
     (let column_mapping = fold normalize_step (columns df) []
      in if column_mapping \<noteq> []
         then df\<lparr>columns :=
                   map (\<lambda>col. case map_of column_mapping col of
                                 Some new \<Rightarrow> new | None \<Rightarrow> col)
                       (columns df)\<rparr>
         else df)"

section \<open>utils.py: cleaning\<close>

text \<open>
  The cleaned table is a \<open>DataFrame\<close> with typed columns. A timestamp is (year, month,
  day, time of day); the lexicographic order on these tuples is the chronological one.
  In a datetime column \<open>None\<close> is \<open>NaT\<close>, in a float column \<open>None\<close> is \<open>NaN\<close>, in a
  column of strings \<open>None\<close> is a missing value.
\<close>

type_synonym timestamp = "nat \<times> nat \<times> nat \<times> nat"

datatype column =
    DatetimeCol "timestamp option list"
  | StrCol "string option list"
  | FloatCol "real option list"
  | PeriodCol "(nat \<times> nat) option list"
  | IntCol "int option list"

record 'i frame =
  f_index :: "'i list"
  f_columns :: "(string \<times> column) list"

datatype error =
    ValueError "string list"
  | KeyError string
  | AttributeError
  | TypeError

text \<open>
  A value of a removed-row dict: a cell of the input as it was, a float, or a string.
\<close>

datatype 'c field = Cell 'c | Number "real option" | Text string

record ('i, 'c) removed_row =
  r_index :: 'i
  r_date :: "'c field"
  r_description :: string
  r_amount :: "'c field"
  r_reason :: string

text \<open>
  A row of the working table \<open>df_clean\<close> after the description and the amount have been
  cleaned: its index label, its date (a raw cell until \<open>to_datetime\<close> has run, an optional
  timestamp afterwards), its description and its amount.
\<close>

record ('i, 't) row =
  idx :: 'i
  date :: 't
  description :: string
  amount :: "real option"

definition required_cols :: "string list" where
  "required_cols = [''date'', ''description'', ''amount'']"

text \<open>Line 27: \<open>df_clean.columns = df_clean.columns.str.lower().str.strip()\<close>.\<close>

definition standardize_columns :: "('i, 'c) dataframe \<Rightarrow> ('i, 'c) dataframe" where
  "standardize_columns df = df\<lparr>columns := map (\<lambda>c. strip (lower c)) (columns df)\<rparr>"

text \<open>
  Lines 38 to 40: \<open>df_clean.loc[:, ~df_clean.columns.duplicated()]\<close> keeps, of the
  columns with one label, the first.
\<close>

fun first_occurrences :: "(string \<times> 'a) list \<Rightarrow> (string \<times> 'a) list" where
  "first_occurrences [] = []"
| "first_occurrences (p # ps) = p # first_occurrences (filter (\<lambda>q. fst q \<noteq> fst p) ps)"

definition drop_duplicated :: "('i, 'c) dataframe \<Rightarrow> ('i, 'c) dataframe" where
  "drop_duplicated df =
     (let kept = first_occurrences (zip (columns df) (cols df))
      in df\<lparr>columns := map fst kept, cols := map snd kept\<rparr>)"

text \<open>\<open>df[name]\<close> for a label that occurs once: the cells of that column.\<close>

definition column_of :: "('i, 'c) dataframe \<Rightarrow> string \<Rightarrow> 'c list" where
  "column_of df name =
     (case map_of (zip (columns df) (cols df)) name of Some cells \<Rightarrow> cells | None \<Rightarrow> [])"

text \<open>
  Line 42, \<open>df_clean[required_cols]\<close>: the column-reduced table, as the list of its rows
  (index label, date cell, description cell, amount cell).
\<close>

definition select_required :: "('i, 'c) dataframe \<Rightarrow> ('i \<times> 'c \<times> 'c \<times> 'c) list" where
  "select_required df =
     zip (index df)
         (zip (column_of df ''date'')
              (zip (column_of df ''description'') (column_of df ''amount'')))"

definition column_reduced :: "('i, 'c) dataframe \<Rightarrow> ('i \<times> 'c \<times> 'c \<times> 'c) list" where
  "column_reduced df =
     (let df_clean = standardize_columns df;
          df_clean = (if \<not> distinct (columns df_clean) then drop_duplicated df_clean
                      else df_clean)
      in select_required df_clean)"

text \<open>Lines 45 and 46; \<open>astype_str\<close> is \<open>astype(str)\<close> on one cell.\<close>

definition clean_description :: "('c \<Rightarrow> string) \<Rightarrow> 'c \<Rightarrow> string" where
  "clean_description astype_str cell =
     (let s = strip (astype_str cell)
      in if s \<in> set [''nan'', ''None'', []] then ''Unknown'' else s)"

text \<open>Line 54: both \<open>str.replace\<close> calls remove every occurrence.\<close>

definition amount_clean :: "('c \<Rightarrow> string) \<Rightarrow> 'c \<Rightarrow> string" where
  "amount_clean astype_str cell =
     strip (remove_char (CHR '','') (remove_char (CHR ''$'') (astype_str cell)))"

text \<open>
  Section 4.5, step 5, of the specification as it is worded: only a leading \<open>$\<close> is
  stripped.
\<close>

definition spec_amount_clean :: "('c \<Rightarrow> string) \<Rightarrow> 'c \<Rightarrow> string" where
  "spec_amount_clean astype_str cell =
     (let s = astype_str cell;
          s = (if startswith s ''$'' then drop 1 s else s)
      in strip (remove_char (CHR '','') s))"

text \<open>Lines 45 to 58 on one row of the column-reduced table.\<close>

definition clean_row ::
  "('c \<Rightarrow> string) \<Rightarrow> (string \<Rightarrow> real option) \<Rightarrow> 'i \<times> 'c \<times> 'c \<times> 'c \<Rightarrow> ('i, 'c) row" where
  "clean_row astype_str to_numeric r =
     (case r of (i, d, s, a) \<Rightarrow>
        \<lparr>idx = i, date = d, description = clean_description astype_str s,
         amount = to_numeric (amount_clean astype_str a)\<rparr>)"

definition invalid_amount_record :: "('i, 'c) row \<Rightarrow> ('i, 'c) removed_row" where
  "invalid_amount_record r =
     \<lparr>r_index = idx r, r_date = Cell (date r), r_description = description r,
      r_amount = Text ''Invalid'',
      r_reason = ''Invalid amount (could not convert to number)''\<rparr>"

definition invalid_date_record :: "('i, 'd option) row \<Rightarrow> ('i, 'c) removed_row" where
  "invalid_date_record r =
     \<lparr>r_index = idx r, r_date = Text ''Invalid'', r_description = description r,
      r_amount = Number (amount r),
      r_reason = ''Invalid date (could not parse)''\<rparr>"

text \<open>
  Lines 45 to 92 up to \<open>sort_values\<close>: the rows that survive, sorted by date and still
  carrying their index labels, and the removed-row records.

  \<open>to_numeric\<close> is \<open>pd.to_numeric(_, errors='coerce')\<close> on one string. \<open>to_datetime\<close> is
  \<open>pd.to_datetime(_, errors='coerce')\<close>: its first argument is the whole column (pandas
  may infer one format from it), its second the cell to convert. \<open>sort_values\<close> is
  modelled by a stable sort; pandas promises no order among equal dates.
\<close>

definition clean_rows ::
  "('c \<Rightarrow> string) \<Rightarrow> (string \<Rightarrow> real option) \<Rightarrow> ('c list \<Rightarrow> 'c \<Rightarrow> ('d::linorder) option)
     \<Rightarrow> ('i \<times> 'c \<times> 'c \<times> 'c) list \<Rightarrow> ('i, 'd option) row list \<times> ('i, 'c) removed_row list" where
  "clean_rows astype_str to_numeric to_datetime reduced =
     (let df_clean = map (clean_row astype_str to_numeric) reduced;
          invalid_amounts = filter (\<lambda>r. amount r = None) df_clean;
          removed_rows = map invalid_amount_record invalid_amounts;
          df_clean = filter (\<lambda>r. amount r \<noteq> None) df_clean;
          series = map date df_clean;
          df_clean = map (\<lambda>r. \<lparr>idx = idx r, date = to_datetime series (date r),
                                 description = description r, amount = amount r\<rparr>) df_clean;
          invalid_dates = filter (\<lambda>r. date r = None) df_clean;
          removed_rows = removed_rows @ map invalid_date_record invalid_dates;
          df_clean = filter (\<lambda>r. date r \<noteq> None) df_clean;
          df_clean = sort_key date df_clean
      in (df_clean, removed_rows))"

text \<open>\<open>reset_index(drop=True)\<close>: the labels are replaced by 0, 1, 2, ...\<close>

definition reset_index :: "('i, timestamp option) row list \<Rightarrow> nat frame" where
  "reset_index rows =
     \<lparr>f_index = [0..<length rows],
      f_columns = [(''date'', DatetimeCol (map date rows)),
                   (''description'', StrCol (map (\<lambda>r. Some (description r)) rows)),
                   (''amount'', FloatCol (map amount rows))]\<rparr>"

text \<open>
  Line 50, \<open>Series.squeeze()\<close>: a Series with exactly one element becomes that element
  (a scalar); any other Series, the empty one included, stays as it is.
\<close>

datatype 'c squeezed = Scalar 'c | Series "'c list"

definition squeeze :: "'c list \<Rightarrow> 'c squeezed" where
  "squeeze series = (case series of [x] \<Rightarrow> Scalar x | _ \<Rightarrow> Series series)"

text \<open>
  \<open>clean_csv_data\<close>. After the check of the required columns and the column reduction,
  line 50 squeezes the amount column. On a table of exactly one row the result is a scalar,
  which is no \<open>DataFrame\<close> (line 51) and has no \<open>.astype(str).str\<close>, so line 54 raises
  \<open>AttributeError\<close>. Otherwise \<open>amount_series\<close> is the amount column itself, and
  \<open>clean_rows\<close> cleans its cells row by row.
\<close>

definition clean_csv_data ::
  "('c \<Rightarrow> string) \<Rightarrow> (string \<Rightarrow> real option) \<Rightarrow> ('c list \<Rightarrow> 'c \<Rightarrow> timestamp option)
     \<Rightarrow> ('i, 'c) dataframe \<Rightarrow> error + (nat frame \<times> ('i, 'c) removed_row list)" where
  "clean_csv_data astype_str to_numeric to_datetime df =
     (let df_clean = standardize_columns df;
          missing_cols = filter (\<lambda>col. col \<notin> set (columns df_clean)) required_cols
      in if missing_cols \<noteq> [] then Inl (ValueError missing_cols)
         else
           let reduced = column_reduced df
           in case squeeze (map (\<lambda>(i, d, s, a). a) reduced) of
                Scalar x \<Rightarrow> Inl AttributeError
              | Series amount_series \<Rightarrow>
                  (case clean_rows astype_str to_numeric to_datetime reduced of
                     (df_clean, removed_rows) \<Rightarrow> Inr (reset_index df_clean, removed_rows)))"

section \<open>utils.py: derived columns\<close>

text \<open>
  \<open>categorize_transaction_type\<close> and \<open>get_absolute_amount\<close> on a float, \<open>None\<close> being
  \<open>NaN\<close>: every comparison with \<open>NaN\<close> is false, and \<open>abs\<close> of \<open>NaN\<close> is \<open>NaN\<close>.
\<close>

definition categorize_transaction_type :: "real option \<Rightarrow> string" where
  "categorize_transaction_type amt =
     (if (case amt of Some x \<Rightarrow> x > 0 | None \<Rightarrow> False) then ''Income'' else ''Expense'')"

definition get_absolute_amount :: "real option \<Rightarrow> real option" where
  "get_absolute_amount amt = map_option abs amt"

definition bind_err :: "error + 'a \<Rightarrow> ('a \<Rightarrow> error + 'b) \<Rightarrow> error + 'b" where
  "bind_err m f = (case m of Inl e \<Rightarrow> Inl e | Inr x \<Rightarrow> f x)"

text \<open>\<open>df[name]\<close> raises \<open>KeyError\<close> when there is no such column.\<close>

definition get_column :: "'i frame \<Rightarrow> string \<Rightarrow> error + column" where
  "get_column df name =
     (case map_of (f_columns df) name of None \<Rightarrow> Inl (KeyError name) | Some c \<Rightarrow> Inr c)"

text \<open>
  \<open>df[name] = values\<close> replaces the column of that name where it stands, or appends a
  new column on the right.
\<close>

definition set_column :: "string \<Rightarrow> column \<Rightarrow> 'i frame \<Rightarrow> 'i frame" where
  "set_column name c df = df\<lparr>f_columns := AList.update name c (f_columns df)\<rparr>"

text \<open>
  The two accessors used by \<open>add_derived_columns\<close>. The functions applied to \<open>amount\<close>
  compare and negate numbers, so the model asks for a float column and reports any other
  as a \<open>TypeError\<close>; \<open>.dt\<close> exists on datetime columns only.
\<close>

definition float_values :: "column \<Rightarrow> error + real option list" where
  "float_values c = (case c of FloatCol xs \<Rightarrow> Inr xs | _ \<Rightarrow> Inl TypeError)"

definition dt :: "column \<Rightarrow> error + timestamp option list" where
  "dt c = (case c of DatetimeCol ts \<Rightarrow> Inr ts | _ \<Rightarrow> Inl AttributeError)"

definition digit_char :: "nat \<Rightarrow> char" where
  "digit_char n = ''0123456789'' ! n"

fun str_nat :: "nat \<Rightarrow> string" where
  "str_nat n = (if n < 10 then [digit_char n] else str_nat (n div 10) @ [digit_char (n mod 10)])"

declare str_nat.simps [simp del]

definition zfill :: "nat \<Rightarrow> string \<Rightarrow> string" where
  "zfill width s = replicate (width - length s) (CHR ''0'') @ s"

definition year_of :: "timestamp \<Rightarrow> nat" where
  "year_of t = fst t"

definition month_of :: "timestamp \<Rightarrow> nat" where
  "month_of t = fst (snd t)"

text \<open>\<open>to_period('M')\<close>, \<open>.year\<close> and \<open>strftime('%Y-%m')\<close> on one timestamp.\<close>

definition to_period_M :: "timestamp \<Rightarrow> nat \<times> nat" where
  "to_period_M t = (year_of t, month_of t)"

definition strftime_Y_m :: "timestamp \<Rightarrow> string" where
  "strftime_Y_m t = zfill 4 (str_nat (year_of t)) @ ''-'' @ zfill 2 (str_nat (month_of t))"

definition add_derived_columns :: "'i frame \<Rightarrow> error + 'i frame" where
  "add_derived_columns df =
     (let df_enhanced = df
      in bind_err (bind_err (get_column df_enhanced ''amount'') float_values) (\<lambda>amounts.
         let df_enhanced =
               set_column ''transaction_type''
                 (StrCol (map (\<lambda>a. Some (categorize_transaction_type a)) amounts)) df_enhanced
         in bind_err (bind_err (get_column df_enhanced ''amount'') float_values) (\<lambda>amounts.
         let df_enhanced =
               set_column ''abs_amount'' (FloatCol (map get_absolute_amount amounts)) df_enhanced
         in bind_err (bind_err (get_column df_enhanced ''date'') dt) (\<lambda>dates.
         let df_enhanced =
               set_column ''month'' (PeriodCol (map (map_option to_period_M) dates)) df_enhanced
         in bind_err (bind_err (get_column df_enhanced ''date'') dt) (\<lambda>dates.
         let df_enhanced =
               set_column ''year'' (IntCol (map (map_option (\<lambda>t. int (year_of t))) dates))
                 df_enhanced
         in bind_err (bind_err (get_column df_enhanced ''date'') dt) (\<lambda>dates.
         let df_enhanced =
               set_column ''month_year'' (StrCol (map (map_option strftime_Y_m) dates))
                 df_enhanced
         in Inr df_enhanced))))))"

section \<open>Conversions for the examples\<close>

text \<open>
  The examples below run the model on concrete tables. Their cells are strings or missing
  values, and the pandas conversions are instantiated by small parsers: plain decimal
  literals (an optional sign, digits, an optional fraction) and ISO dates
  \<open>YYYY-MM-DD\<close>. The general theorems do not depend on them.
\<close>

datatype cell = Str string | NaN | PyNone

fun cell_str :: "cell \<Rightarrow> string" where
  "cell_str (Str s) = s"
| "cell_str NaN = ''nan''"
| "cell_str PyNone = ''None''"

definition digit_value :: "char \<Rightarrow> nat option" where
  "digit_value c = map_of (zip ''0123456789'' [0, 1, 2, 3, 4, 5, 6, 7, 8, 9]) c"

fun digits_value :: "nat \<Rightarrow> string \<Rightarrow> nat option" where
  "digits_value acc [] = Some acc"
| "digits_value acc (c # cs) =
     (case digit_value c of None \<Rightarrow> None | Some d \<Rightarrow> digits_value (10 * acc + d) cs)"

definition parse_unsigned :: "string \<Rightarrow> real option" where
  "parse_unsigned s =
     (let int_part = takeWhile (\<lambda>c. c \<noteq> CHR ''.'') s;
          frac_part = drop 1 (dropWhile (\<lambda>c. c \<noteq> CHR ''.'') s)
      in if int_part = [] \<and> frac_part = [] then None
         else case (digits_value 0 int_part, digits_value 0 frac_part) of
                (Some i, Some f) \<Rightarrow> Some (real i + real f / 10 ^ length frac_part)
              | _ \<Rightarrow> None)"

definition parse_decimal :: "string \<Rightarrow> real option" where
  "parse_decimal s =
     (if startswith s ''-'' then map_option uminus (parse_unsigned (drop 1 s))
      else if startswith s ''+'' then parse_unsigned (drop 1 s)
      else parse_unsigned s)"

definition days_in_month :: "nat \<Rightarrow> nat \<Rightarrow> nat" where
  "days_in_month y m =
     (if m = 2 then (if y mod 4 = 0 \<and> (y mod 100 \<noteq> 0 \<or> y mod 400 = 0) then 29 else 28)
      else if m \<in> set [4, 6, 9, 11] then 30 else 31)"

definition parse_iso_date :: "string \<Rightarrow> timestamp option" where
  "parse_iso_date s =
     (if length s = 10 \<and> s ! 4 = CHR ''-'' \<and> s ! 7 = CHR ''-'' then
        case (digits_value 0 (take 4 s), digits_value 0 (take 2 (drop 5 s)),
              digits_value 0 (drop 8 s)) of
          (Some y, Some m, Some d) \<Rightarrow>
            if 1 \<le> m \<and> m \<le> 12 \<and> 1 \<le> d \<and> d \<le> days_in_month y m then Some (y, m, d, 0)
            else None
        | _ \<Rightarrow> None
      else None)"

definition cell_to_datetime :: "cell list \<Rightarrow> cell \<Rightarrow> timestamp option" where
  "cell_to_datetime series c =
     (case c of Str s \<Rightarrow> parse_iso_date (strip s) | _ \<Rightarrow> None)"

section \<open>Tables used in the examples\<close>

definition example_rows :: "string list list" where
  "example_rows = [
     [''Example Bank'', ''Statement''],
     [''Account'', ''000123''],
     [''Statement Date'', ''2024-01-31''],
     [],
     [''Date range'', ''Amount due''],
     [''Description of charges''],
     [''Date'', ''Description'', ''Amount'', ''Balance''],
     [''2024-01-05'', ''Coffee'', ''-4.50'', ''100.00'']]"

definition example_canonical_df :: "(nat, cell) dataframe" where
  "example_canonical_df =
     \<lparr>columns = [''date'', ''description'', ''amount''],
      index = [0, 1],
      cols = [[Str ''2024-03-05'', Str ''2024-01-15''],
              [Str ''Coffee'', NaN],
              [Str ''-4.50'', Str ''1234.56'']]\<rparr>"

definition example_df :: "(nat, cell) dataframe" where
  "example_df =
     \<lparr>columns = [''Date '', ''Description'', '' AMOUNT'', ''Balance'', ''amount''],
      index = [0, 1, 2, 3],
      cols = [[Str ''2024-03-05'', Str ''2024-01-15'', Str ''not a date'', Str ''2024-02-01''],
              [Str '' Coffee '', NaN, Str ''Rent'', Str ''Gift''],
              [Str ''-$4.50'', Str ''$1,234.56'', Str ''-900'', Str ''abc''],
              [Str ''10'', Str ''20'', Str ''30'', Str ''40''],
              [Str ''1'', Str ''2'', Str ''3'', Str ''4'']]\<rparr>"

definition example_cleaned :: "nat frame" where
  "example_cleaned =
     \<lparr>f_index = [0, 1],
      f_columns =
        [(''date'', DatetimeCol [Some (2024, 1, 15, 0), Some (2024, 3, 5, 0)]),
         (''description'', StrCol [Some ''Unknown'', Some ''Coffee'']),
         (''amount'', FloatCol [Some 1234.56, Some (-4.5)])]\<rparr>"

definition example_removed :: "(nat, cell) removed_row list" where
  "example_removed =
     [\<lparr>r_index = 3, r_date = Cell (Str ''2024-02-01''), r_description = ''Gift'',
       r_amount = Text ''Invalid'',
       r_reason = ''Invalid amount (could not convert to number)''\<rparr>,
      \<lparr>r_index = 2, r_date = Text ''Invalid'', r_description = ''Rent'',
       r_amount = Number (Some (- 900)),
       r_reason = ''Invalid date (could not parse)''\<rparr>]"

section \<open>Strings: substring test and stripping\<close>

lemma startswith_prefix: "startswith s p \<longleftrightarrow> prefix p s"
  unfolding startswith_def by (metis append_eq_conv_conj prefix_def take_is_prefix)

lemma str_in_sublist: "str_in k s \<longleftrightarrow> sublist k s"
  by (induction s) (auto simp: startswith_prefix sublist_Cons_right)

lemma strip_length: "length (strip s) \<le> length s"
proof -
  have "length (dropWhile P xs) \<le> length xs" for P and xs :: string
    by (induction xs) auto
  then show ?thesis unfolding strip_def lstrip_def
    by (metis le_trans length_rev)
qed

lemma sublist_dropWhile:
  assumes "k \<noteq> []" and "\<not> P (hd k)"
  shows "sublist k (dropWhile P s) \<longleftrightarrow> sublist k s"
proof (induction s)
  case Nil
  then show ?case by simp
next
  case (Cons c s)
  show ?case
  proof (cases "P c")
    case True
    have "\<not> prefix k (c # s)"
      using assms True by (cases k) auto
    with True Cons show ?thesis by (simp add: sublist_Cons_right)
  next
    case False
    then show ?thesis by simp
  qed
qed

lemma sublist_strip:
  assumes "k \<noteq> []" and "\<not> isspace (hd k)" and "\<not> isspace (last k)"
  shows "sublist k (strip s) \<longleftrightarrow> sublist k s"
proof -
  have r: "rev k \<noteq> []" "\<not> isspace (hd (rev k))"
    using assms by (simp_all add: hd_rev)
  have "sublist k (strip s) \<longleftrightarrow> sublist (rev k) (dropWhile isspace (rev (dropWhile isspace s)))"
    unfolding strip_def lstrip_def by (metis sublist_rev rev_rev_ident)
  also have "\<dots> \<longleftrightarrow> sublist (rev k) (rev (dropWhile isspace s))"
    using r by (rule sublist_dropWhile)
  also have "\<dots> \<longleftrightarrow> sublist k (dropWhile isspace s)"
    by (rule sublist_rev)
  also have "\<dots> \<longleftrightarrow> sublist k s"
    using assms(1,2) by (rule sublist_dropWhile)
  finally show ?thesis .
qed

section \<open>The classifier\<close>

lemma fold_score_acc:
  "fold (\<lambda>keyword score. if P keyword then score + length keyword else score) ks acc
     = acc + sum_list (map length (filter P ks))"
  by (induction ks arbitrary: acc) auto

lemma keyword_score_spec:
  assumes "distinct ks" and "\<forall>k \<in> set ks. lower k = k"
  shows "keyword_score d ks = spec_score d ks"
proof -
  have "keyword_score d ks = sum_list (map length (filter (\<lambda>k. str_in (lower k) d) ks))"
    unfolding keyword_score_def by (simp add: fold_score_acc)
  also have "filter (\<lambda>k. str_in (lower k) d) ks = filter (\<lambda>k. sublist k d) ks"
    using assms(2) by (intro filter_cong) (auto simp: str_in_sublist)
  also have "sum_list (map length (filter (\<lambda>k. sublist k d) ks))
               = sum length (set (filter (\<lambda>k. sublist k d) ks))"
    using assms(1) by (simp add: sum_list_distinct_conv_sum_set)
  also have "set (filter (\<lambda>k. sublist k d) ks) = {k \<in> set ks. sublist k d}"
    by simp
  finally show ?thesis by (simp add: spec_score_def)
qed

lemma Max_py_max_step:
  fixes key :: "'a \<Rightarrow> nat"
  shows "Max (key ` set ((if key best < key x then x else best) # xs))
     = Max (key ` set (best # x # xs))"
proof (cases "xs = []")
  case True
  then show ?thesis by (simp add: max_def)
next
  case False
  then have ne: "key ` set xs \<noteq> {}" and fin: "finite (key ` set xs)" by simp_all
  have "Max (insert (key best) (insert (key x) (key ` set xs)))
          = max (key best) (max (key x) (Max (key ` set xs)))"
    using ne fin by simp
  moreover have "Max (insert (key (if key best < key x then x else best)) (key ` set xs))
          = max (key (if key best < key x then x else best)) (Max (key ` set xs))"
    using ne fin by simp
  moreover have "max (key (if key best < key x then x else best)) (Max (key ` set xs))
          = max (key best) (max (key x) (Max (key ` set xs)))"
    by (simp add: max_def)
  ultimately show ?thesis by simp
qed

lemma py_max_key: "key (py_max key best xs) = Max (key ` set (best # xs))"
proof (induction xs arbitrary: best)
  case Nil
  then show ?case by simp
next
  case (Cons x xs)
  have "key (py_max key best (x # xs))
          = key (py_max key (if key best < key x then x else best) xs)"
    by (simp only: py_max.simps)
  also have "\<dots> = Max (key ` set ((if key best < key x then x else best) # xs))"
    by (rule Cons.IH)
  also have "\<dots> = Max (key ` set (best # x # xs))"
    by (rule Max_py_max_step)
  finally show ?case .
qed

lemma find_skip: "\<not> P a \<Longrightarrow> find P (a # xs) = find P xs"
  by simp

lemma find_hit: "P a \<Longrightarrow> find P (a # xs) = Some a"
  by simp

lemma py_max_first:
  "find (\<lambda>y. key y = Max (key ` set (best # xs))) (best # xs) = Some (py_max key best xs)"
proof (induction xs arbitrary: best)
  case Nil
  then show ?case by simp
next
  case (Cons x xs)
  define M where "M = Max (key ` set (best # x # xs))"
  have bM: "key best \<le> M" unfolding M_def by (intro Max_ge) auto
  have xM: "key x \<le> M" unfolding M_def by (intro Max_ge) auto
  have goal: "find (\<lambda>y. key y = M) (best # x # xs) = Some (py_max key best (x # xs))"
  proof (cases "key best < key x")
    case True
    have "Max (key ` set (x # xs)) = M"
      using Max_py_max_step [of key best x xs] True unfolding M_def by (simp only: if_True)
    with Cons.IH [of x] have IH: "find (\<lambda>y. key y = M) (x # xs) = Some (py_max key x xs)"
      by (simp only:)
    from True xM have "key best \<noteq> M" by linarith
    then have "find (\<lambda>y. key y = M) (best # x # xs) = find (\<lambda>y. key y = M) (x # xs)"
      by (rule find_skip)
    moreover have "py_max key best (x # xs) = py_max key x xs"
      using True by (simp only: py_max.simps if_True)
    ultimately show ?thesis using IH by (simp only:)
  next
    case False
    have "Max (key ` set (best # xs)) = M"
      using Max_py_max_step [of key best x xs] False unfolding M_def by (simp only: if_False)
    with Cons.IH [of best] have IH: "find (\<lambda>y. key y = M) (best # xs) = Some (py_max key best xs)"
      by (simp only:)
    have py: "py_max key best (x # xs) = py_max key best xs"
      using False by (simp only: py_max.simps if_False)
    show ?thesis
    proof (cases "key best = M")
      case True
      then have "find (\<lambda>y. key y = M) (best # x # xs) = Some best"
        and "find (\<lambda>y. key y = M) (best # xs) = Some best" by (simp_all only: find_hit)
      with IH py show ?thesis by (simp only:)
    next
      case nb: False
      with False bM have nx: "key x \<noteq> M" by linarith
      have "find (\<lambda>y. key y = M) (best # x # xs) = find (\<lambda>y. key y = M) (x # xs)"
        using nb by (rule find_skip)
      also have "\<dots> = find (\<lambda>y. key y = M) xs" using nx by (rule find_skip)
      also have "\<dots> = find (\<lambda>y. key y = M) (best # xs)" using nb by (rule find_skip [symmetric])
      finally show ?thesis using IH py by (simp only:)
    qed
  qed
  then show ?case unfolding M_def .
qed

text \<open>
  Every keyword list of the table is free of duplicates and in lower case, and no
  category occurs twice.
\<close>

lemma CATEGORY_KEYWORDS_wellformed:
  "list_all (\<lambda>(c, ks). distinct ks \<and> list_all (\<lambda>k. lower k = k) ks) CATEGORY_KEYWORDS"
  by code_simp

lemma CATEGORY_KEYWORDS_keys_distinct: "distinct (map fst CATEGORY_KEYWORDS)"
  by code_simp

lemma category_scores_spec:
  "map (\<lambda>(category, keywords). (category, keyword_score d keywords)) CATEGORY_KEYWORDS
     = map (\<lambda>(category, keywords). (category, spec_score d keywords)) CATEGORY_KEYWORDS"
proof (rule map_cong [OF refl])
  fix x assume "x \<in> set CATEGORY_KEYWORDS"
  with CATEGORY_KEYWORDS_wellformed
  have "case x of (c, ks) \<Rightarrow> distinct ks \<and> list_all (\<lambda>k. lower k = k) ks"
    by (simp add: list_all_iff)
  then show "(case x of (category, keywords) \<Rightarrow> (category, keyword_score d keywords))
           = (case x of (category, keywords) \<Rightarrow> (category, spec_score d keywords))"
    by (cases x) (simp add: keyword_score_spec list_all_iff)
qed

lemma classify_first_max:
  assumes "a \<le> 0"
  shows "classify d a = spec_classify d"
proof -
  define scores where
    "scores = map (\<lambda>(category, keywords). (category, spec_score (lower d) keywords))
                  CATEGORY_KEYWORDS"
  show ?thesis
  proof (cases scores)
    case Nil
    then have "CATEGORY_KEYWORDS = []" by (simp add: scores_def)
    then show ?thesis using assms
      by (simp add: classify_def spec_classify_def)
  next
    case (Cons p ps)
    define best where "best = py_max snd p ps"
    define M where "M = Max (snd ` set scores)"
    have k: "snd best = M"
      unfolding best_def M_def Cons by (rule py_max_key)
    have f: "find (\<lambda>y. snd y = M) scores = Some best"
      unfolding best_def M_def Cons by (rule py_max_first)
    have lam: "(\<lambda>(category, s). s = M) = (\<lambda>y. snd y = M)"
      by (simp add: fun_eq_iff split: prod.splits)
    have code: "classify d a = (if snd best > 0 then fst best else ''Other'')"
      using assms unfolding classify_def Let_def category_scores_spec
        scores_def [symmetric] Cons best_def by simp
    have spec: "spec_classify d =
        (if M = 0 then ''Other''
         else case find (\<lambda>(category, s). s = M) scores of
                Some (category, s) \<Rightarrow> category | None \<Rightarrow> ''Other'')"
      unfolding spec_classify_def Let_def scores_def [symmetric] M_def [symmetric] ..
    show ?thesis unfolding code spec lam f k
      by (cases best) simp
  qed
qed

lemma classify_empty_negative: "classify [] (-5) = ''Other''"
  by code_simp

lemma classify_starbucks_zero: "classify ''STARBUCKS COFFEE #123'' 0 = ''Food & Dining''"
  by code_simp

text \<open>
  Claim C4. For every description and every amount strictly greater than zero,
  \<open>classify\<close> returns \<open>Income\<close>, whatever the description contains.
\<close>

theorem classify_positive_income: "0 < a \<Longrightarrow> classify d a = ''Income''"
  by (simp add: classify_def)

theorem classify_positive_income_witness:
  "(0::real) < 12 \<and> classify ''STARBUCKS COFFEE #123'' 12 = ''Income''"
  using classify_positive_income [of 12 "''STARBUCKS COFFEE #123''"] by simp

text \<open>
  Claim C5. For every description and every amount less than or equal to zero, \<open>classify\<close>
  lower-cases the description, gives each category of the keyword table the sum of the
  lengths of its keywords that occur in the lower-cased description (each keyword once)
  and returns the first category, in the order of the table, that reaches the maximum
  score, or \<open>Other\<close> when the maximum is 0; on the empty description with amount -5 the
  result is \<open>Other\<close>.
\<close>

theorem classify_nonpositive_scores:
  "a \<le> 0 \<Longrightarrow> classify d a = spec_classify d \<and> classify [] (-5) = ''Other''"
  using classify_first_max classify_empty_negative by simp

theorem classify_nonpositive_scores_witness:
  "(0::real) \<le> 0 \<and> spec_classify ''STARBUCKS COFFEE #123'' = ''Food & Dining''"
  using classify_nonpositive_scores [of 0 "''STARBUCKS COFFEE #123''"] classify_starbucks_zero
  by simp

text \<open>
  Claim C10. For all lists of descriptions and amounts, of equal length or not,
  \<open>classify_batch\<close> returns a list as long as the shorter of the two, whose element at
  each position is \<open>classify\<close> of the description and the amount at that position; what
  the longer list has in excess is ignored.
\<close>

theorem classify_batch_zip:
  "length (classify_batch ds ams) = min (length ds) (length ams) \<and>
   (\<forall>i < min (length ds) (length ams).
      classify_batch ds ams ! i = classify (ds ! i) (ams ! i))"
  by (simp add: classify_batch_def)

theorem classify_batch_zip_witness:
  "length (classify_batch [''rent'', ''coffee'', ''salary''] [-900, -4]) = 2 \<and>
   classify_batch [''rent'', ''coffee'', ''salary''] [-900, -4] ! 1 = classify ''coffee'' (-4)"
proof -
  let ?ds = "[''rent'', ''coffee'', ''salary'']" and ?ams = "[-900, -4 :: real]"
  have m: "min (length ?ds) (length ?ams) = 2" by simp
  from classify_batch_zip [of ?ds ?ams]
  have l: "length (classify_batch ?ds ?ams) = 2"
    and n: "\<forall>i < 2. classify_batch ?ds ?ams ! i = classify (?ds ! i) (?ams ! i)"
    unfolding m by blast+
  from n have "classify_batch ?ds ?ams ! 1 = classify (?ds ! 1) (?ams ! 1)" by simp
  with l show ?thesis by simp
qed

section \<open>Merchant names\<close>

lemma remove_prefixes_no_match:
  "\<forall>p \<in> set ps. \<not> startswith s p \<Longrightarrow> remove_prefixes ps s = s"
  by (induction ps) auto

lemma remove_prefixes_first_match:
  "\<forall>p \<in> set ps1. \<not> startswith s p \<Longrightarrow> startswith s p \<Longrightarrow>
   remove_prefixes (ps1 @ p # ps2) s = remove_prefixes ps2 (drop (length p) s)"
  by (induction ps1) auto

lemma truncate_or_unknown_bounds:
  "truncate_or_unknown r \<noteq> [] \<and> length (truncate_or_unknown r) \<le> 50"
proof -
  have "length (strip (take 50 r)) \<le> 50"
    using strip_length [of "take 50 r"] by simp
  then show ?thesis by (simp add: truncate_or_unknown_def Let_def)
qed

lemma example_no_prefix_upper: "strip (upper ''Walmart #12'') = ''WALMART #12''"
  by code_simp

lemma example_no_prefix_result: "truncate_or_unknown ''WALMART #12'' = ''WALMART #12''"
  by code_simp

lemma example_two_prefixes_result:
  "truncate_or_unknown
     (remove_prefixes (drop (Suc 0) prefixes_to_remove)
        (drop (length (prefixes_to_remove ! 0)) ''DEBIT CARD PURCHASE - PAYMENT TO BOB''))
   = ''BOB''"
  by code_simp

lemma example_strip_upper:
  "strip (upper ''Debit Card Purchase - Payment to Bob'') = ''DEBIT CARD PURCHASE - PAYMENT TO BOB''"
  by code_simp

text \<open>
  On a description that starts with one listed prefix followed by another that stands
  later in the list, \<open>extract_merchant_name\<close> strips both, where stripping the first
  matching prefix only would keep the second.
\<close>

theorem extract_merchant_name_counterexample:
  "extract_merchant_name ''Debit Card Purchase - Payment to Bob'' = ''BOB'' \<and>
   spec_extract_merchant_name ''Debit Card Purchase - Payment to Bob'' = ''PAYMENT TO BOB''"
  by code_simp

text \<open>
  Claim C7, as amended. \<open>extract_merchant_name\<close> upper-cases and trims the description
  and then goes once through the prefix list in its order, stripping each prefix that the
  text, as it is at that moment, starts with. So when no prefix matches nothing is
  stripped, and when the first matching prefix is the one at position \<open>i\<close>, that prefix is
  stripped and the prefixes after position \<open>i\<close> are still tried on the remainder (more
  than one prefix can be stripped). The result is then cut to its first 50 characters and
  trimmed, and is \<open>Unknown\<close> when that is empty; it is never empty and never longer than
  50 characters.
\<close>

theorem extract_merchant_name_single_pass:
  "((\<forall>p \<in> set prefixes_to_remove. \<not> startswith (strip (upper d)) p) \<longrightarrow>
      extract_merchant_name d = truncate_or_unknown (strip (upper d))) \<and>
   (\<forall>i < length prefixes_to_remove.
      startswith (strip (upper d)) (prefixes_to_remove ! i) \<and>
      (\<forall>j < i. \<not> startswith (strip (upper d)) (prefixes_to_remove ! j)) \<longrightarrow>
      extract_merchant_name d =
        truncate_or_unknown
          (remove_prefixes (drop (Suc i) prefixes_to_remove)
             (drop (length (prefixes_to_remove ! i)) (strip (upper d))))) \<and>
   extract_merchant_name d \<noteq> [] \<and> length (extract_merchant_name d) \<le> 50"
proof (intro conjI allI impI)
  assume "\<forall>p \<in> set prefixes_to_remove. \<not> startswith (strip (upper d)) p"
  then show "extract_merchant_name d = truncate_or_unknown (strip (upper d))"
    by (simp add: extract_merchant_name_def remove_prefixes_no_match)
next
  fix i
  assume i: "i < length prefixes_to_remove"
    and h: "startswith (strip (upper d)) (prefixes_to_remove ! i) \<and>
            (\<forall>j < i. \<not> startswith (strip (upper d)) (prefixes_to_remove ! j))"
  let ?ps = prefixes_to_remove
  have split: "?ps = take i ?ps @ ?ps ! i # drop (Suc i) ?ps"
    using i by (rule id_take_nth_drop)
  have none: "\<forall>p \<in> set (take i ?ps). \<not> startswith (strip (upper d)) p"
    using h i by (auto simp: in_set_conv_nth)
  have "remove_prefixes ?ps (strip (upper d))
          = remove_prefixes (take i ?ps @ ?ps ! i # drop (Suc i) ?ps) (strip (upper d))"
    using split by simp
  also have "\<dots> = remove_prefixes (drop (Suc i) ?ps)
                      (drop (length (?ps ! i)) (strip (upper d)))"
    using none h by (intro remove_prefixes_first_match) auto
  finally show "extract_merchant_name d =
        truncate_or_unknown
          (remove_prefixes (drop (Suc i) ?ps) (drop (length (?ps ! i)) (strip (upper d))))"
    by (simp add: extract_merchant_name_def)
next
  show "extract_merchant_name d \<noteq> []" "length (extract_merchant_name d) \<le> 50"
    using truncate_or_unknown_bounds by (simp_all add: extract_merchant_name_def)
qed

theorem extract_merchant_name_single_pass_witness:
  "extract_merchant_name ''Walmart #12'' = ''WALMART #12'' \<and>
   startswith (strip (upper ''Debit Card Purchase - Payment to Bob'')) (prefixes_to_remove ! 0) \<and>
   extract_merchant_name ''Debit Card Purchase - Payment to Bob'' = ''BOB''"
proof -
  let ?d = "''Debit Card Purchase - Payment to Bob''"
  have none: "\<forall>p \<in> set prefixes_to_remove. \<not> startswith (strip (upper ''Walmart #12'')) p"
    unfolding example_no_prefix_upper by (simp add: prefixes_to_remove_def startswith_def)
  from extract_merchant_name_single_pass [of "''Walmart #12''"] none
  have "extract_merchant_name ''Walmart #12'' = truncate_or_unknown (strip (upper ''Walmart #12''))"
    by blast
  then have a: "extract_merchant_name ''Walmart #12'' = ''WALMART #12''"
    by (simp only: example_no_prefix_upper example_no_prefix_result)
  have s: "startswith (strip (upper ?d)) (prefixes_to_remove ! 0)"
    unfolding example_strip_upper by (simp add: prefixes_to_remove_def startswith_def)
  have l: "0 < length prefixes_to_remove" by (simp add: prefixes_to_remove_def)
  from extract_merchant_name_single_pass [of ?d] l s
  have "extract_merchant_name ?d =
     truncate_or_unknown
       (remove_prefixes (drop (Suc 0) prefixes_to_remove)
          (drop (length (prefixes_to_remove ! 0)) (strip (upper ?d))))"
    by blast
  then have b: "extract_merchant_name ?d = ''BOB''"
    by (simp only: example_strip_upper example_two_prefixes_result)
  from a s b show ?thesis by blast
qed

section \<open>Header detection\<close>

lemma keyword_in_stripped:
  assumes "keyword \<in> set required_keywords"
  shows "str_in keyword (strip s) \<longleftrightarrow> sublist keyword s"
proof -
  have "keyword \<noteq> [] \<and> \<not> isspace (hd keyword) \<and> \<not> isspace (last keyword)"
    using assms by (auto simp: required_keywords_def isspace_def)
  then show ?thesis by (simp add: str_in_sublist sublist_strip)
qed

lemma count_matches_header: "count_matches row = 3 \<longleftrightarrow> spec_is_header row"
proof -
  have ex: "list_ex (\<lambda>cell. str_in keyword cell) (map (\<lambda>cell. strip (lower cell)) row)
              \<longleftrightarrow> (\<exists>cell \<in> set row. sublist keyword (lower cell))"
    if "keyword \<in> set required_keywords" for keyword
    using that by (simp add: list_ex_iff keyword_in_stripped)
  have "count_matches row =
          (if \<exists>cell \<in> set row. sublist ''date'' (lower cell) then 1 else 0)
        + (if \<exists>cell \<in> set row. sublist ''description'' (lower cell) then 1 else 0)
        + (if \<exists>cell \<in> set row. sublist ''amount'' (lower cell) then 1 else (0::nat))"
    unfolding count_matches_def Let_def
    using ex [of "''date''"] ex [of "''description''"] ex [of "''amount''"]
    by (simp add: required_keywords_def)
  then show ?thesis by (auto simp: spec_is_header_def split: if_splits)
qed

lemma scan_rows_first:
  "i < length rows \<Longrightarrow> count_matches (rows ! i) = 3 \<Longrightarrow>
   \<forall>j < i. count_matches (rows ! j) \<noteq> 3 \<Longrightarrow> scan_rows n rows = n + i"
proof (induction rows arbitrary: n i)
  case Nil
  then show ?case by simp
next
  case (Cons r rows)
  show ?case
  proof (cases i)
    case 0
    with Cons.prems show ?thesis by simp
  next
    case (Suc k)
    with Cons.prems have r: "count_matches r \<noteq> 3" by auto
    have "scan_rows (Suc n) rows = Suc n + k"
      using Cons.prems Suc by (intro Cons.IH) auto
    with r Suc show ?thesis by simp
  qed
qed

lemma scan_rows_none:
  "\<forall>i < length rows. count_matches (rows ! i) \<noteq> 3 \<Longrightarrow> scan_rows n rows = 0"
proof (induction rows arbitrary: n)
  case Nil
  then show ?case by simp
next
  case (Cons r rows)
  from Cons.prems have "count_matches r \<noteq> 3" by auto
  moreover have "scan_rows (Suc n) rows = 0"
    using Cons.prems by (intro Cons.IH) auto
  ultimately show ?case by simp
qed

lemma header_example: "spec_is_header [''Date'', ''Description'', ''Amount'', ''Balance'']"
  unfolding count_matches_header [symmetric] by code_simp

lemma example_rows_no_header_before:
  "list_all (\<lambda>row. count_matches row \<noteq> 3) (take 6 example_rows)"
  by code_simp

text \<open>
  Claim C6. On the rows read from a file, \<open>detect_header_row\<close> looks at the first 20 and
  returns the zero-based position of the first row in which each of the keywords \<open>date\<close>,
  \<open>description\<close> and \<open>amount\<close> occurs, ignoring case, as a substring of some cell; it
  returns 0 when the first 20 rows have no such row. In particular, when row 6 is
  \<open>Date, Description, Amount, Balance\<close> and no earlier row has all three keywords, the
  result is 6.
\<close>

theorem detect_header_row_first_match:
  "(i < length rows \<and> i < 20 \<and> spec_is_header (rows ! i) \<and>
      (\<forall>j < i. \<not> spec_is_header (rows ! j)) \<longrightarrow> detect_header_row (Some rows) = i) \<and>
   ((\<forall>i. i < length rows \<and> i < 20 \<longrightarrow> \<not> spec_is_header (rows ! i)) \<longrightarrow>
      detect_header_row (Some rows) = 0) \<and>
   (6 < length rows \<and> rows ! 6 = [''Date'', ''Description'', ''Amount'', ''Balance''] \<and>
      (\<forall>j < 6. \<not> spec_is_header (rows ! j)) \<longrightarrow> detect_header_row (Some rows) = 6)"
proof -
  have first: "detect_header_row (Some rows) = i"
    if "i < length rows" "i < 20" "spec_is_header (rows ! i)"
       "\<forall>j < i. \<not> spec_is_header (rows ! j)" for i
  proof -
    have "scan_rows 0 (take 20 rows) = 0 + i"
      using that by (intro scan_rows_first) (auto simp: count_matches_header)
    then show ?thesis by (simp add: detect_header_row_def)
  qed
  have none: "detect_header_row (Some rows) = 0"
    if "\<forall>i. i < length rows \<and> i < 20 \<longrightarrow> \<not> spec_is_header (rows ! i)"
  proof -
    have "scan_rows 0 (take 20 rows) = 0"
      using that by (intro scan_rows_none) (auto simp: count_matches_header)
    then show ?thesis by (simp add: detect_header_row_def)
  qed
  have six: "detect_header_row (Some rows) = 6"
    if "6 < length rows" "rows ! 6 = [''Date'', ''Description'', ''Amount'', ''Balance'']"
       "\<forall>j < 6. \<not> spec_is_header (rows ! j)"
    using that header_example by (intro first) auto
  from first none six show ?thesis by blast
qed

theorem detect_header_row_first_match_witness:
  "6 < length example_rows \<and>
   example_rows ! 6 = [''Date'', ''Description'', ''Amount'', ''Balance''] \<and>
   \<not> spec_is_header (example_rows ! 0) \<and> \<not> spec_is_header (example_rows ! 1) \<and>
   \<not> spec_is_header (example_rows ! 2) \<and> \<not> spec_is_header (example_rows ! 3) \<and>
   \<not> spec_is_header (example_rows ! 4) \<and> \<not> spec_is_header (example_rows ! 5) \<and>
   detect_header_row (Some example_rows) = 6 \<and>
   detect_header_row (Some (take 6 example_rows)) = 0"
proof -
  have l: "6 < length example_rows"
    by (simp add: example_rows_def)
  have r: "example_rows ! 6 = [''Date'', ''Description'', ''Amount'', ''Balance'']"
    by (simp add: example_rows_def)
  have "\<forall>j < length (take 6 example_rows). count_matches (take 6 example_rows ! j) \<noteq> 3"
    using example_rows_no_header_before by (simp only: list_all_length)
  then have n: "\<forall>j < 6. \<not> spec_is_header (example_rows ! j)"
    using l by (simp add: count_matches_header)
  from detect_header_row_first_match [of 0 example_rows] l r n
  have six: "detect_header_row (Some example_rows) = 6"
    by blast
  have "\<forall>i. i < length (take 6 example_rows) \<and> i < 20 \<longrightarrow>
            \<not> spec_is_header (take 6 example_rows ! i)"
    using n by simp
  with detect_header_row_first_match [of 0 "take 6 example_rows"]
  have zero: "detect_header_row (Some (take 6 example_rows)) = 0"
    by blast
  from l r n six zero show ?thesis
    by simp
qed

section \<open>Column names\<close>

lemma set_update_subset:
  "p \<in> set (AList.update a b m) \<Longrightarrow> p = (a, b) \<or> p \<in> set m"
  by (induction m) (auto split: if_splits)

lemma canonical_step:
  assumes "col \<in> set required_cols" and "\<forall>(k, v) \<in> set m. k = v"
  shows "\<forall>(k, v) \<in> set (normalize_step col m). k = v"
proof -
  have u: "\<forall>(k, v) \<in> set (AList.update col col m). k = v"
    using assms(2) by (auto dest!: set_update_subset)
  from assms(1) consider "col = ''date''" | "col = ''description''" | "col = ''amount''"
    by (auto simp: required_cols_def)
  then show ?thesis
  proof cases
    case 1
    have "strip (lower ''date'') = ''date''" by code_simp
    with 1 u assms(2) show ?thesis
      by (simp add: normalize_step_def Let_def date_variations_def)
  next
    case 2
    have "strip (lower ''description'') = ''description''" by code_simp
    moreover have "\<not> str_in ''date'' ''description''" by code_simp
    ultimately show ?thesis using 2 u assms(2)
      by (simp add: normalize_step_def Let_def date_variations_def description_variations_def)
  next
    case 3
    have "strip (lower ''amount'') = ''amount''" by code_simp
    moreover have "\<not> str_in ''date'' ''amount''" "\<not> str_in ''description'' ''amount''"
      "\<not> str_in ''merchant'' ''amount''" by code_simp+
    ultimately show ?thesis using 3 u assms(2)
      by (simp add: normalize_step_def Let_def date_variations_def description_variations_def
            amount_variations_def)
  qed
qed

lemma canonical_fold:
  "set cs \<subseteq> set required_cols \<Longrightarrow> \<forall>(k, v) \<in> set m. k = v \<Longrightarrow>
   \<forall>(k, v) \<in> set (fold normalize_step cs m). k = v"
proof (induction cs arbitrary: m)
  case Nil
  then show ?case by simp
next
  case (Cons c cs)
  have "\<forall>(k, v) \<in> set (normalize_step c m). k = v"
    using Cons.prems by (intro canonical_step) auto
  then show ?case using Cons.prems by (simp add: Cons.IH)
qed

lemma rename_identity:
  assumes "\<forall>(k, v) \<in> set m. k = v"
  shows "map (\<lambda>col. case map_of m col of Some new \<Rightarrow> new | None \<Rightarrow> col) cs = cs"
proof -
  have "(case map_of m col of Some new \<Rightarrow> new | None \<Rightarrow> col) = col" for col
    using assms by (auto split: option.splits dest!: map_of_SomeD)
  then show ?thesis by (simp add: map_idI)
qed

text \<open>
  Claim C8. On a table whose column names are already the canonical names \<open>date\<close>,
  \<open>description\<close> and \<open>amount\<close>, \<open>normalize_column_names\<close> changes nothing: the table it
  returns is the table it was given, names and values, so applying it twice is the same
  as applying it once.
\<close>

theorem normalize_column_names_canonical:
  assumes "set (columns df) \<subseteq> {''date'', ''description'', ''amount''}"
  shows "normalize_column_names df = df \<and>
         normalize_column_names (normalize_column_names df) = normalize_column_names df"
proof -
  have "set (columns df) \<subseteq> set required_cols"
    using assms by (simp add: required_cols_def)
  then have "\<forall>(k, v) \<in> set (fold normalize_step (columns df) []). k = v"
    by (intro canonical_fold) auto
  then have "normalize_column_names df = df"
    by (simp add: normalize_column_names_def Let_def rename_identity)
  then show ?thesis by simp
qed

theorem normalize_column_names_canonical_witness:
  "set (columns example_canonical_df) \<subseteq> {''date'', ''description'', ''amount''} \<and>
   normalize_column_names example_canonical_df = example_canonical_df"
proof -
  have c: "set (columns example_canonical_df) \<subseteq> {''date'', ''description'', ''amount''}"
    by (simp add: example_canonical_df_def)
  from normalize_column_names_canonical [OF c] c show ?thesis
    by blast
qed

section \<open>Cleaning\<close>

lemma example_column_reduced: "column_reduced example_df =
   [(0, Str ''2024-03-05'', Str '' Coffee '', Str ''-$4.50''),
    (1, Str ''2024-01-15'', NaN, Str ''$1,234.56''),
    (2, Str ''not a date'', Str ''Rent'', Str ''-900''),
    (3, Str ''2024-02-01'', Str ''Gift'', Str ''abc'')]"
  by code_simp

lemma example_clean:
  "clean_csv_data cell_str parse_decimal cell_to_datetime example_df
     = Inr (example_cleaned, example_removed)"
  by code_simp

lemma partition_image_mset:
  "image_mset f (mset (filter P xs)) + image_mset f (mset (filter (\<lambda>x. \<not> P x) xs))
     = image_mset f (mset xs)"
  by (induction xs) auto

lemma idx_clean_row: "idx (clean_row A N r) = fst r"
  by (cases r) (simp add: clean_row_def)

lemma clean_description_nonempty: "clean_description A c \<noteq> []"
  by (simp add: clean_description_def Let_def)

lemma description_clean_row: "description (clean_row A N r) \<noteq> []"
  by (cases r) (simp add: clean_row_def clean_description_nonempty)

lemma clean_rows_account_pairs:
  fixes reduced :: "('i \<times> 'c \<times> 'c \<times> 'c) list"
    and D :: "'c list \<Rightarrow> 'c \<Rightarrow> ('d::linorder) option"
  assumes "clean_rows A N D reduced = (surv, removed)"
  shows "mset (map (\<lambda>r. (idx r, description r)) surv)
           + mset (map (\<lambda>r. (r_index r, r_description r)) removed)
         = mset (map (\<lambda>(i, d, s, a). (i, clean_description A s)) reduced)"
proof -
  define W where "W = map (clean_row A N) reduced"
  define V where "V = filter (\<lambda>r. amount r \<noteq> None) W"
  define T where "T = map (\<lambda>r. \<lparr>idx = idx r, date = D (map date V) (date r),
                                 description = description r, amount = amount r\<rparr>) V"
  define g :: "('i, 'c) row \<Rightarrow> 'i \<times> string" where "g = (\<lambda>r. (idx r, description r))"
  define g' :: "('i, 'd option) row \<Rightarrow> 'i \<times> string" where "g' = (\<lambda>r. (idx r, description r))"
  have surv: "surv = sort_key date (filter (\<lambda>r. date r \<noteq> None) T)"
    and removed: "removed = map invalid_amount_record (filter (\<lambda>r. amount r = None) W)
                     @ map invalid_date_record (filter (\<lambda>r. date r = None) T)"
    using assms unfolding clean_rows_def Let_def W_def V_def T_def by simp_all
  have gW: "map g W = map (\<lambda>(i, d, s, a). (i, clean_description A s)) reduced"
    by (auto simp: W_def g_def clean_row_def)
  have gT: "map g' T = map g V"
    by (simp add: T_def g_def g'_def)
  have "mset (map (\<lambda>r. (idx r, description r)) surv)
          + mset (map (\<lambda>r. (r_index r, r_description r)) removed)
      = image_mset g' (mset (filter (\<lambda>r. \<not> date r = None) T))
        + image_mset g' (mset (filter (\<lambda>r. date r = None) T))
        + image_mset g (mset (filter (\<lambda>r. amount r = None) W))"
    unfolding surv removed g_def g'_def
    by (simp add: invalid_amount_record_def invalid_date_record_def o_def ac_simps)
  also have "image_mset g' (mset (filter (\<lambda>r. \<not> date r = None) T))
        + image_mset g' (mset (filter (\<lambda>r. date r = None) T)) = image_mset g' (mset T)"
    using partition_image_mset [of g' "\<lambda>r. \<not> date r = None" T] by simp
  also have "image_mset g' (mset T) = image_mset g (mset V)"
    using gT by (metis mset_map)
  also have "image_mset g (mset V) + image_mset g (mset (filter (\<lambda>r. amount r = None) W))
        = image_mset g (mset W)"
    unfolding V_def using partition_image_mset [of g "\<lambda>r. \<not> amount r = None" W] by simp
  also have "\<dots> = mset (map (\<lambda>(i, d, s, a). (i, clean_description A s)) reduced)"
    using gW by (metis mset_map)
  finally show ?thesis .
qed

lemma clean_rows_account:
  assumes "clean_rows A N D reduced = (surv, removed)"
  shows "mset (map idx surv) + mset (map r_index removed) = mset (map fst reduced)"
    and "length surv + length removed = length reduced"
proof -
  have "image_mset fst (mset (map (\<lambda>r. (idx r, description r)) surv)
           + mset (map (\<lambda>r. (r_index r, r_description r)) removed))
        = image_mset fst (mset (map (\<lambda>(i, d, s, a). (i, clean_description A s)) reduced))"
    using clean_rows_account_pairs [OF assms] by (rule arg_cong)
  moreover have "map (\<lambda>x. fst (case x of (i, d, s, a) \<Rightarrow> (i, clean_description A s))) reduced
                   = map fst reduced"
    by (rule map_cong) auto
  ultimately show l: "mset (map idx surv) + mset (map r_index removed) = mset (map fst reduced)"
    by (simp add: o_def flip: mset_map)
  then have "size (mset (map idx surv) + mset (map r_index removed)) = size (mset (map fst reduced))"
    by simp
  then show "length surv + length removed = length reduced"
    by simp
qed

lemma sorted_map_Some: "sorted (map Some ts) \<longleftrightarrow> sorted ts"
  by (induction ts) auto

lemma clean_rows_valid:
  assumes "clean_rows A N D reduced = (surv, removed)"
  shows "\<forall>r \<in> set surv. date r \<noteq> None \<and> amount r \<noteq> None \<and> description r \<noteq> []"
    and "sorted (map date surv)"
proof -
  define W where "W = map (clean_row A N) reduced"
  define V where "V = filter (\<lambda>r. amount r \<noteq> None) W"
  define T where "T = map (\<lambda>r. \<lparr>idx = idx r, date = D (map date V) (date r),
                                 description = description r, amount = amount r\<rparr>) V"
  have surv: "surv = sort_key date (filter (\<lambda>r. date r \<noteq> None) T)"
    using assms unfolding clean_rows_def Let_def W_def V_def T_def by simp
  have "\<forall>r \<in> set W. description r \<noteq> []"
    by (auto simp: W_def description_clean_row)
  then have "\<forall>r \<in> set T. amount r \<noteq> None \<and> description r \<noteq> []"
    by (auto simp: T_def V_def)
  then show "\<forall>r \<in> set surv. date r \<noteq> None \<and> amount r \<noteq> None \<and> description r \<noteq> []"
    by (auto simp: surv)
  show "sorted (map date surv)"
    unfolding surv by (rule sorted_sort_key)
qed

lemma squeeze_Series: "squeeze xs = Series ys \<longleftrightarrow> length xs \<noteq> 1 \<and> ys = xs"
  by (cases xs rule: remdups_adj.cases) (auto simp: squeeze_def)

lemma squeeze_Scalar: "(\<exists>x. squeeze xs = Scalar x) \<longleftrightarrow> length xs = 1"
  by (cases xs rule: remdups_adj.cases) (auto simp: squeeze_def)

lemma clean_csv_data_run:
  assumes "clean_csv_data A N D df = Inr (cleaned, removed)"
  obtains surv where "clean_rows A N D (column_reduced df) = (surv, removed)"
    and "cleaned = reset_index surv" and "length (column_reduced df) \<noteq> 1"
  using assms unfolding clean_csv_data_def Let_def
  by (auto simp: squeeze_Series split: if_splits prod.splits squeezed.splits)

text \<open>
  \<open>clean_csv_data\<close> raises \<open>ValueError\<close> with the missing names when one of the three
  required names is not among the standardized column names, raises \<open>AttributeError\<close> on
  every table of exactly one row, and accepts every other table.
\<close>

lemma clean_csv_data_accepts:
  "set required_cols \<subseteq> set (columns (standardize_columns df)) \<Longrightarrow>
   length (column_reduced df) \<noteq> 1 \<Longrightarrow>
   \<exists>cleaned removed. clean_csv_data A N D df = Inr (cleaned, removed)"
  unfolding clean_csv_data_def Let_def
  by (cases "squeeze (map (\<lambda>(i, d, s, a). a) (column_reduced df))")
     (auto simp: filter_empty_conv dest: squeeze_Scalar [THEN iffD1, OF exI] split: prod.splits)

lemma clean_csv_data_one_row:
  "set required_cols \<subseteq> set (columns (standardize_columns df)) \<Longrightarrow>
   length (column_reduced df) = 1 \<Longrightarrow>
   clean_csv_data A N D df = Inl AttributeError"
  unfolding clean_csv_data_def Let_def
  by (cases "squeeze (map (\<lambda>(i, d, s, a). a) (column_reduced df))")
     (auto simp: filter_empty_conv squeeze_Series)

lemma clean_csv_data_rejects:
  "\<not> set required_cols \<subseteq> set (columns (standardize_columns df)) \<Longrightarrow>
   clean_csv_data A N D df =
     Inl (ValueError (filter (\<lambda>col. col \<notin> set (columns (standardize_columns df))) required_cols))"
  unfolding clean_csv_data_def Let_def
  by (auto simp: filter_empty_conv)

lemma example_one_row:
  "clean_csv_data cell_str parse_decimal cell_to_datetime
     \<lparr>columns = [''date'', ''description'', ''amount''], index = [0::nat],
      cols = [[Str ''2024-01-05''], [Str ''Coffee''], [Str ''abc'']]\<rparr>
   = Inl AttributeError"
  by code_simp

lemma clean_rows_invalid_amounts:
  fixes reduced :: "('i \<times> 'c \<times> 'c \<times> 'c) list"
    and D :: "'c list \<Rightarrow> 'c \<Rightarrow> ('d::linorder) option"
  assumes "clean_rows A N D reduced = (surv, removed)"
  shows "filter (\<lambda>r. r_reason r = ''Invalid amount (could not convert to number)'') removed
           = map (\<lambda>r. invalid_amount_record (clean_row A N r))
                 (filter (\<lambda>r. amount (clean_row A N r) = None) reduced)"
    and "mset (map (\<lambda>r. (idx r, description r, amount r)) surv)
           \<subseteq># mset (map (\<lambda>r. (idx (clean_row A N r), description (clean_row A N r),
                                 amount (clean_row A N r)))
                         (filter (\<lambda>r. amount (clean_row A N r) \<noteq> None) reduced))"
proof -
  define W where "W = map (clean_row A N) reduced"
  define V where "V = filter (\<lambda>r. amount r \<noteq> None) W"
  define T where "T = map (\<lambda>r. \<lparr>idx = idx r, date = D (map date V) (date r),
                                 description = description r, amount = amount r\<rparr>) V"
  define g :: "('i, 'c) row \<Rightarrow> 'i \<times> string \<times> real option"
    where "g = (\<lambda>r. (idx r, description r, amount r))"
  define g' :: "('i, 'd option) row \<Rightarrow> 'i \<times> string \<times> real option"
    where "g' = (\<lambda>r. (idx r, description r, amount r))"
  have surv: "surv = sort_key date (filter (\<lambda>r. date r \<noteq> None) T)"
    and removed: "removed = map invalid_amount_record (filter (\<lambda>r. amount r = None) W)
                     @ map invalid_date_record (filter (\<lambda>r. date r = None) T)"
    using assms unfolding clean_rows_def Let_def W_def V_def T_def by simp_all
  show "filter (\<lambda>r. r_reason r = ''Invalid amount (could not convert to number)'') removed
           = map (\<lambda>r. invalid_amount_record (clean_row A N r))
                 (filter (\<lambda>r. amount (clean_row A N r) = None) reduced)"
    unfolding removed W_def
    by (simp add: filter_map o_def invalid_amount_record_def invalid_date_record_def)
  have "mset (map g' surv) \<subseteq># image_mset g' (mset T)"
    unfolding surv by (simp add: image_mset_subseteq_mono)
  also have "image_mset g' (mset T) = mset (map g V)"
  proof -
    have "map g' T = map g V" by (simp add: T_def g_def g'_def)
    then show ?thesis by (metis mset_map)
  qed
  also have "map g V = map (\<lambda>r. g (clean_row A N r))
                           (filter (\<lambda>r. amount (clean_row A N r) \<noteq> None) reduced)"
    unfolding V_def W_def by (simp add: filter_map o_def)
  finally show "mset (map (\<lambda>r. (idx r, description r, amount r)) surv)
           \<subseteq># mset (map (\<lambda>r. (idx (clean_row A N r), description (clean_row A N r),
                                 amount (clean_row A N r)))
                         (filter (\<lambda>r. amount (clean_row A N r) \<noteq> None) reduced))"
    unfolding g_def g'_def .
qed

lemma distinct_map_same:
  "distinct (map f xs) \<Longrightarrow> x \<in> set xs \<Longrightarrow> y \<in> set xs \<Longrightarrow> f x = f y \<Longrightarrow> x = y"
  by (meson distinct_map inj_onD)

lemma example_parse: "parse_decimal ''1234.56'' = Some 1234.56"
  by code_simp

lemma example_amount: "parse_decimal (amount_clean cell_str (Str ''$1,234.56'')) = Some 1234.56"
  by code_simp

lemma example_strip_amount:
  "strip (remove_char (CHR '','') (remove_char (CHR ''$'') ''$1,234.56'')) = ''1234.56''"
  by code_simp

lemma example_abc_invalid:
  "parse_decimal (strip (remove_char (CHR '','') (remove_char (CHR ''$'') (cell_str (Str ''abc'')))))
     = None"
  by code_simp

text \<open>
  Claim C1. Whenever \<open>clean_csv_data\<close> accepts a table, every row of the column-reduced
  table is in exactly one of its two results. With \<open>surv\<close> the rows that \<open>clean_rows\<close>
  keeps (the rows of the cleaned table, before their index is reset): the cleaned rows and
  the removed-row records together are as many as the rows of the column-reduced table;
  the index labels of \<open>surv\<close> together with the labels recorded in the removed rows are,
  as a multiset, the labels of the column-reduced table, and the same holds of the pairs
  of label and cleaned description; so when the labels are distinct, no label occurs twice
  among the two results and every label occurs in one of them.
\<close>

theorem clean_csv_data_accounts_for_rows:
  assumes "clean_csv_data A N D df = Inr (cleaned, removed)"
  shows "length (f_index cleaned) + length removed = length (column_reduced df) \<and>
         (\<exists>surv. clean_rows A N D (column_reduced df) = (surv, removed) \<and>
            cleaned = reset_index surv \<and>
            mset (map idx surv) + mset (map r_index removed)
              = mset (map fst (column_reduced df)) \<and>
            mset (map (\<lambda>r. (idx r, description r)) surv)
              + mset (map (\<lambda>r. (r_index r, r_description r)) removed)
              = mset (map (\<lambda>(i, d, s, a). (i, clean_description A s)) (column_reduced df)) \<and>
            (distinct (map fst (column_reduced df)) \<longrightarrow>
               distinct (map idx surv @ map r_index removed) \<and>
               set (map idx surv) \<union> set (map r_index removed)
                 = set (map fst (column_reduced df))))"
proof -
  from assms obtain surv where run: "clean_rows A N D (column_reduced df) = (surv, removed)"
    and c: "cleaned = reset_index surv" by (rule clean_csv_data_run)
  note a = clean_rows_account [OF run]
  note p = clean_rows_account_pairs [OF run]
  have m: "mset (map idx surv @ map r_index removed) = mset (map fst (column_reduced df))"
    using a(1) by simp
  have d: "distinct (map idx surv @ map r_index removed)"
    if "distinct (map fst (column_reduced df))"
    using mset_eq_imp_distinct_iff [OF m] that by (simp only:)
  have s: "set (map idx surv) \<union> set (map r_index removed) = set (map fst (column_reduced df))"
    using mset_eq_setD [OF m] by (simp only: set_append)
  have l: "length (f_index cleaned) + length removed = length (column_reduced df)"
    using a(2) c by (simp add: reset_index_def)
  show ?thesis
  proof (intro conjI exI [of _ surv] impI)
    show "length (f_index cleaned) + length removed = length (column_reduced df)" by (rule l)
    show "clean_rows A N D (column_reduced df) = (surv, removed)" by (rule run)
    show "cleaned = reset_index surv" by (rule c)
    show "mset (map idx surv) + mset (map r_index removed) = mset (map fst (column_reduced df))"
      by (rule a(1))
    show "mset (map (\<lambda>r. (idx r, description r)) surv)
              + mset (map (\<lambda>r. (r_index r, r_description r)) removed)
              = mset (map (\<lambda>(i, d, s, a). (i, clean_description A s)) (column_reduced df))"
      by (rule p)
    show "distinct (map idx surv @ map r_index removed)"
      if "distinct (map fst (column_reduced df))" using that by (rule d)
    show "set (map idx surv) \<union> set (map r_index removed) = set (map fst (column_reduced df))"
      by (rule s)
  qed
qed

theorem clean_csv_data_accounts_for_rows_witness:
  "clean_csv_data cell_str parse_decimal cell_to_datetime example_df
     = Inr (example_cleaned, example_removed) \<and>
   length (f_index example_cleaned) + length example_removed
     = length (column_reduced example_df) \<and>
   (\<exists>surv. clean_rows cell_str parse_decimal cell_to_datetime (column_reduced example_df)
             = (surv, example_removed) \<and>
      example_cleaned = reset_index surv \<and>
      mset (map idx surv) + mset (map r_index example_removed)
        = mset (map fst (column_reduced example_df)))"
proof -
  note t = clean_csv_data_accounts_for_rows [OF example_clean]
  from t have l: "length (f_index example_cleaned) + length example_removed
     = length (column_reduced example_df)" by (rule conjunct1)
  from t obtain surv where
    r: "clean_rows cell_str parse_decimal cell_to_datetime (column_reduced example_df)
             = (surv, example_removed)"
    and c: "example_cleaned = reset_index surv"
    and m: "mset (map idx surv) + mset (map r_index example_removed)
        = mset (map fst (column_reduced example_df))"
    by (elim conjE exE) (rule that; assumption)
  show ?thesis
    by (intro conjI exI [of _ surv]) (rule example_clean l r c m)+
qed

text \<open>
  Claim C2. Whenever \<open>clean_csv_data\<close> accepts a table, the cleaned table has the three
  columns \<open>date\<close>, \<open>description\<close> and \<open>amount\<close>; every date is a parsed timestamp (none is
  \<open>NaT\<close>), every amount is a number (none is \<open>NaN\<close>), every description is a non-empty
  string, the dates are in ascending order, and the index is 0, 1, 2, ... without gaps.
\<close>

theorem clean_csv_data_rows_valid_sorted:
  assumes "clean_csv_data A N D df = Inr (cleaned, removed)"
  shows "\<exists>ts ss xs.
           f_columns cleaned = [(''date'', DatetimeCol (map Some ts)),
                                (''description'', StrCol (map Some ss)),
                                (''amount'', FloatCol (map Some xs))] \<and>
           length ts = length ss \<and> length ss = length xs \<and>
           f_index cleaned = [0..<length ts] \<and>
           sorted ts \<and> (\<forall>s \<in> set ss. s \<noteq> [])"
proof -
  from assms obtain surv where run: "clean_rows A N D (column_reduced df) = (surv, removed)"
    and c: "cleaned = reset_index surv" by (rule clean_csv_data_run)
  note v = clean_rows_valid [OF run]
  define ts where "ts = map (\<lambda>r. the (date r)) surv"
  define ss where "ss = map description surv"
  define xs where "xs = map (\<lambda>r. the (amount r)) surv"
  have d: "map date surv = map Some ts"
    using v(1) by (auto simp: ts_def)
  have a: "map amount surv = map Some xs"
    using v(1) by (auto simp: xs_def)
  have s: "map (\<lambda>r. Some (description r)) surv = map Some ss"
    by (simp add: ss_def)
  have "sorted ts"
    using v(2) unfolding d by (simp add: sorted_map_Some)
  moreover have "\<forall>s \<in> set ss. s \<noteq> []"
    using v(1) by (auto simp: ss_def)
  moreover have "length ts = length ss" "length ss = length xs" "length ts = length surv"
    by (simp_all add: ts_def ss_def xs_def)
  ultimately show ?thesis
    unfolding c reset_index_def using d a s by auto
qed

theorem clean_csv_data_rows_valid_sorted_witness:
  "clean_csv_data cell_str parse_decimal cell_to_datetime example_df
     = Inr (example_cleaned, example_removed) \<and>
   (\<exists>ts ss xs.
      f_columns example_cleaned = [(''date'', DatetimeCol (map Some ts)),
                                   (''description'', StrCol (map Some ss)),
                                   (''amount'', FloatCol (map Some xs))] \<and>
      length ts = length ss \<and> length ss = length xs \<and>
      f_index example_cleaned = [0..<length ts] \<and>
      sorted ts \<and> (\<forall>s \<in> set ss. s \<noteq> []))"
  using clean_csv_data_rows_valid_sorted [OF example_clean] example_clean by blast

text \<open>
  The amount \<open>-$5.00\<close> has its \<open>$\<close> after the sign. Cleaning removes it and parses -5, so
  the row is kept; stripping a leading \<open>$\<close> only would leave a text that is no number.
\<close>

theorem amount_cleaning_counterexample:
  "amount (clean_row cell_str parse_decimal
             (0::nat, Str ''2024-01-05'', Str ''Refund'', Str ''-$5.00'')) = Some (- 5) \<and>
   parse_decimal (spec_amount_clean cell_str (Str ''-$5.00'')) = None"
  by code_simp

text \<open>
  Claim C3, as amended. In every table that cleaning accepts, each amount cell is turned
  into a string, every \<open>$\<close> character (wherever it stands, not a leading one only) and
  every \<open>,\<close> is removed, white space is trimmed and the rest is parsed as a number: a cell
  reading \<open>$1,234.56\<close> is parsed from \<open>1234.56\<close>, which is the number 1234.56, and the
  example table shows it in the cleaned amount column. The rows whose amount does not
  parse are exactly the rows recorded with the reason
  \<open>Invalid amount (could not convert to number)\<close>, in the order of the table, each with its
  index label, its date cell as it was, its cleaned description and \<open>Invalid\<close> for the
  amount. They are dropped: every row that \<open>clean_rows\<close> keeps is, with its label, its
  cleaned description and its amount, a row of the table whose amount parsed, the amount
  kept being the parsed number; and when the labels are distinct, the label of a row whose
  amount does not parse is not among the rows kept.
\<close>

theorem clean_csv_data_invalid_amounts:
  assumes "clean_csv_data A N D df = Inr (cleaned, removed)"
  shows "filter (\<lambda>r. r_reason r = ''Invalid amount (could not convert to number)'') removed
           = map (\<lambda>(i, d, s, a).
                    \<lparr>r_index = i, r_date = Cell d, r_description = clean_description A s,
                     r_amount = Text ''Invalid'',
                     r_reason = ''Invalid amount (could not convert to number)''\<rparr>)
                 (filter (\<lambda>(i, d, s, a).
                            N (strip (remove_char (CHR '','')
                                 (remove_char (CHR ''$'') (A a)))) = None)
                         (column_reduced df)) \<and>
         (\<exists>surv. clean_rows A N D (column_reduced df) = (surv, removed) \<and>
            cleaned = reset_index surv \<and>
            mset (map (\<lambda>r. (idx r, description r, amount r)) surv)
              \<subseteq># mset (map (\<lambda>(i, d, s, a).
                               (i, clean_description A s,
                                N (strip (remove_char (CHR '','')
                                     (remove_char (CHR ''$'') (A a))))))
                            (filter (\<lambda>(i, d, s, a).
                                       N (strip (remove_char (CHR '','')
                                            (remove_char (CHR ''$'') (A a)))) \<noteq> None)
                                    (column_reduced df))) \<and>
            (distinct (map fst (column_reduced df)) \<longrightarrow>
               (\<forall>(i, d, s, a) \<in> set (column_reduced df).
                  N (strip (remove_char (CHR '','') (remove_char (CHR ''$'') (A a)))) = None
                    \<longrightarrow> i \<notin> set (map idx surv)))) \<and>
         (\<forall>c. A c = ''$1,234.56'' \<longrightarrow>
              strip (remove_char (CHR '','') (remove_char (CHR ''$'') (A c))) = ''1234.56'') \<and>
         parse_decimal ''1234.56'' = Some 1234.56 \<and>
         clean_csv_data cell_str parse_decimal cell_to_datetime example_df
           = Inr (example_cleaned, example_removed)"
proof -
  define num where "num = (\<lambda>a. N (strip (remove_char (CHR '','') (remove_char (CHR ''$'') (A a)))))"
  define R where "R = column_reduced df"
  from assms obtain surv where run: "clean_rows A N D R = (surv, removed)"
    and c: "cleaned = reset_index surv" unfolding R_def by (rule clean_csv_data_run)
  have am: "(\<lambda>r. amount (clean_row A N r) = None) = (\<lambda>(i, d, s, a). num a = None)"
    by (auto simp: fun_eq_iff clean_row_def amount_clean_def num_def)
  have am': "(\<lambda>r. amount (clean_row A N r) \<noteq> None) = (\<lambda>(i, d, s, a). num a \<noteq> None)"
    by (auto simp: fun_eq_iff clean_row_def amount_clean_def num_def)
  have rec: "(\<lambda>r. invalid_amount_record (clean_row A N r))
          = (\<lambda>(i, d, s, a).
                    \<lparr>r_index = i, r_date = Cell d, r_description = clean_description A s,
                     r_amount = Text ''Invalid'',
                     r_reason = ''Invalid amount (could not convert to number)''\<rparr>)"
    by (auto simp: fun_eq_iff clean_row_def invalid_amount_record_def)
  have tri: "(\<lambda>r. (idx (clean_row A N r), description (clean_row A N r),
                    amount (clean_row A N r)))
          = (\<lambda>(i, d, s, a). (i, clean_description A s, num a))"
    by (auto simp: fun_eq_iff clean_row_def amount_clean_def num_def)
  note r = clean_rows_invalid_amounts [OF run, unfolded am am' rec tri]
  have dropped: "\<forall>(i, d, s, a) \<in> set R. num a = None \<longrightarrow> i \<notin> set (map idx surv)"
    if dist: "distinct (map fst R)"
  proof (clarify)
    fix i d s a
    assume row: "(i, d, s, a) \<in> set R" and bad: "num a = None"
      and "i \<in> set (map idx surv)"
    then obtain q where q: "q \<in> set surv" "idx q = i" by auto
    have mem: "(idx q, description q, amount q)
        \<in> set (map (\<lambda>r. (idx r, description r, amount r)) surv)"
      using q(1) by (auto simp: image_iff intro!: bexI [of _ q])
    have "set_mset (mset (map (\<lambda>r. (idx r, description r, amount r)) surv))
        \<subseteq> set_mset (mset (map (\<lambda>(i, d, s, a). (i, clean_description A s, num a))
                    (filter (\<lambda>(i, d, s, a). num a \<noteq> None) R)))"
      using r(2) by (rule set_mset_mono)
    then have sub: "set (map (\<lambda>r. (idx r, description r, amount r)) surv)
        \<subseteq> set (map (\<lambda>(i, d, s, a). (i, clean_description A s, num a))
                    (filter (\<lambda>(i, d, s, a). num a \<noteq> None) R))"
      by (simp only: set_mset_mset)
    from sub mem have "(idx q, description q, amount q)
        \<in> set (map (\<lambda>(i, d, s, a). (i, clean_description A s, num a))
                    (filter (\<lambda>(i, d, s, a). num a \<noteq> None) R))"
      by (rule subsetD)
    then obtain i' d' s' a' where ok: "(i', d', s', a') \<in> set R" "num a' \<noteq> None" "i' = idx q"
      by auto
    from dist row ok(1) have "(i, d, s, a) = (i', d', s', a')"
      by (rule distinct_map_same) (simp add: ok(3) q(2))
    with bad ok(2) show False by simp
  qed
  have ex: "\<forall>c. A c = ''$1,234.56'' \<longrightarrow>
              strip (remove_char (CHR '','') (remove_char (CHR ''$'') (A c))) = ''1234.56''"
    using example_strip_amount by simp
  note r1 = r(1) [unfolded num_def R_def]
  note r2 = r(2) [unfolded num_def R_def]
  note run' = run [unfolded R_def]
  note dropped' = dropped [unfolded num_def R_def]
  show ?thesis
    by (intro conjI exI [of _ surv] impI)
       (rule r1 run' c r2 dropped' ex example_parse example_clean | assumption)+
qed

theorem clean_csv_data_invalid_amounts_witness:
  "clean_csv_data cell_str parse_decimal cell_to_datetime example_df
     = Inr (example_cleaned, example_removed) \<and>
   filter (\<lambda>r. r_reason r = ''Invalid amount (could not convert to number)'') example_removed
     = map (\<lambda>(i, d, s, a).
              \<lparr>r_index = i, r_date = Cell d, r_description = clean_description cell_str s,
               r_amount = Text ''Invalid'',
               r_reason = ''Invalid amount (could not convert to number)''\<rparr>)
           (filter (\<lambda>(i, d, s, a).
                      parse_decimal (strip (remove_char (CHR '','')
                           (remove_char (CHR ''$'') (cell_str a)))) = None)
                   (column_reduced example_df)) \<and>
   distinct (map fst (column_reduced example_df)) \<and>
   (3, Str ''2024-02-01'', Str ''Gift'', Str ''abc'') \<in> set (column_reduced example_df) \<and>
   (\<exists>surv. clean_rows cell_str parse_decimal cell_to_datetime (column_reduced example_df)
             = (surv, example_removed) \<and>
      example_cleaned = reset_index surv \<and>
      3 \<notin> set (map idx surv))"
proof -
  note t = clean_csv_data_invalid_amounts [OF example_clean]
  have dist: "distinct (map fst (column_reduced example_df))"
    by (simp add: example_column_reduced)
  have row: "(3, Str ''2024-02-01'', Str ''Gift'', Str ''abc'') \<in> set (column_reduced example_df)"
    by (simp add: example_column_reduced)
  from t have f: "filter (\<lambda>r. r_reason r = ''Invalid amount (could not convert to number)'')
       example_removed
     = map (\<lambda>(i, d, s, a).
              \<lparr>r_index = i, r_date = Cell d, r_description = clean_description cell_str s,
               r_amount = Text ''Invalid'',
               r_reason = ''Invalid amount (could not convert to number)''\<rparr>)
           (filter (\<lambda>(i, d, s, a).
                      parse_decimal (strip (remove_char (CHR '','')
                           (remove_char (CHR ''$'') (cell_str a)))) = None)
                   (column_reduced example_df))"
    by (rule conjunct1)
  from t obtain surv where
    r: "clean_rows cell_str parse_decimal cell_to_datetime (column_reduced example_df)
             = (surv, example_removed)"
    and c: "example_cleaned = reset_index surv"
    and d: "distinct (map fst (column_reduced example_df)) \<longrightarrow>
               (\<forall>(i, d, s, a) \<in> set (column_reduced example_df).
                  parse_decimal (strip (remove_char (CHR '','')
                       (remove_char (CHR ''$'') (cell_str a)))) = None
                    \<longrightarrow> i \<notin> set (map idx surv))"
    by (elim conjE exE) (rule that; assumption)
  from d dist have "\<forall>(i, d, s, a) \<in> set (column_reduced example_df).
                  parse_decimal (strip (remove_char (CHR '','')
                       (remove_char (CHR ''$'') (cell_str a)))) = None
                    \<longrightarrow> i \<notin> set (map idx surv)"
    by (rule mp)
  from bspec [OF this row] example_abc_invalid have n: "3 \<notin> set (map idx surv)"
    by simp
  show ?thesis
    by (intro conjI exI [of _ surv]) (rule example_clean f dist row r c n)+
qed

section \<open>Derived columns\<close>

text \<open>
  Claim C9. On every cleaned table (columns \<open>date\<close>, \<open>description\<close>, \<open>amount\<close>), the
  empty one included, \<open>add_derived_columns\<close> succeeds; the result has the same index, hence
  the same rows, its first three columns are the columns of the input with their values,
  and the only additions are \<open>transaction_type\<close> (\<open>Income\<close> for an amount above zero,
  \<open>Expense\<close> otherwise, zero included), \<open>abs_amount\<close> (the absolute value), \<open>month\<close> (year
  and month), \<open>year\<close> and \<open>month_year\<close> (the date formatted as year, dash, month).
\<close>

theorem add_derived_columns_frame:
  assumes "f_columns df = [(''date'', DatetimeCol ds), (''description'', StrCol ss),
                           (''amount'', FloatCol xs)]"
  shows "\<exists>out. add_derived_columns df = Inr out \<and>
           f_index out = f_index df \<and>
           f_columns out = f_columns df @
             [(''transaction_type'',
               StrCol (map (\<lambda>a. Some (if (case a of Some x \<Rightarrow> 0 < x | None \<Rightarrow> False)
                                       then ''Income'' else ''Expense'')) xs)),
              (''abs_amount'', FloatCol (map (map_option abs) xs)),
              (''month'', PeriodCol (map (map_option (\<lambda>t. (fst t, fst (snd t)))) ds)),
              (''year'', IntCol (map (map_option (\<lambda>t. int (fst t))) ds)),
              (''month_year'', StrCol (map (map_option strftime_Y_m) ds))] \<and>
           categorize_transaction_type (Some 0) = ''Expense''"
proof -
  have cat: "categorize_transaction_type =
      (\<lambda>a. if (case a of Some x \<Rightarrow> 0 < x | None \<Rightarrow> False) then ''Income'' else ''Expense'')"
    by (simp add: fun_eq_iff categorize_transaction_type_def)
  have ab: "get_absolute_amount = map_option abs"
    by (simp add: fun_eq_iff get_absolute_amount_def)
  have per: "to_period_M = (\<lambda>t. (fst t, fst (snd t)))"
    by (simp add: fun_eq_iff to_period_M_def year_of_def month_of_def)
  have "add_derived_columns df = Inr (df\<lparr>f_columns := f_columns df @
             [(''transaction_type'',
               StrCol (map (\<lambda>a. Some (categorize_transaction_type a)) xs)),
              (''abs_amount'', FloatCol (map get_absolute_amount xs)),
              (''month'', PeriodCol (map (map_option to_period_M) ds)),
              (''year'', IntCol (map (map_option (\<lambda>t. int (year_of t))) ds)),
              (''month_year'', StrCol (map (map_option strftime_Y_m) ds))]\<rparr>)"
    unfolding add_derived_columns_def Let_def
    by (simp add: assms get_column_def set_column_def bind_err_def float_values_def dt_def)
  then show ?thesis
    unfolding cat ab per year_of_def by (simp add: assms)
qed

theorem add_derived_columns_frame_witness:
  "add_derived_columns example_cleaned =
     Inr \<lparr>f_index = [0, 1],
          f_columns =
            [(''date'', DatetimeCol [Some (2024, 1, 15, 0), Some (2024, 3, 5, 0)]),
             (''description'', StrCol [Some ''Unknown'', Some ''Coffee'']),
             (''amount'', FloatCol [Some 1234.56, Some (-4.5)]),
             (''transaction_type'', StrCol [Some ''Income'', Some ''Expense'']),
             (''abs_amount'', FloatCol [Some 1234.56, Some 4.5]),
             (''month'', PeriodCol [Some (2024, 1), Some (2024, 3)]),
             (''year'', IntCol [Some 2024, Some 2024]),
             (''month_year'', StrCol [Some ''2024-01'', Some ''2024-03''])]\<rparr> \<and>
   add_derived_columns
     \<lparr>f_index = [] :: nat list,
      f_columns = [(''date'', DatetimeCol []), (''description'', StrCol []),
                   (''amount'', FloatCol [])]\<rparr> =
     Inr \<lparr>f_index = [],
          f_columns = [(''date'', DatetimeCol []), (''description'', StrCol []),
                       (''amount'', FloatCol []), (''transaction_type'', StrCol []),
                       (''abs_amount'', FloatCol []), (''month'', PeriodCol []),
                       (''year'', IntCol []), (''month_year'', StrCol [])]\<rparr>"
proof -
  let ?ds = "[Some (2024, 1, 15, 0), Some (2024, 3, 5, 0)] :: timestamp option list"
  let ?xs = "[Some 1234.56, Some (-4.5)] :: real option list"
  let ?e = "\<lparr>f_index = [] :: nat list,
             f_columns = [(''date'', DatetimeCol []), (''description'', StrCol []),
                          (''amount'', FloatCol [])]\<rparr>"
  have c: "f_columns example_cleaned =
        [(''date'', DatetimeCol [Some (2024, 1, 15, 0), Some (2024, 3, 5, 0)]),
         (''description'', StrCol [Some ''Unknown'', Some ''Coffee'']),
         (''amount'', FloatCol [Some 1234.56, Some (-4.5)])]"
    by (simp add: example_cleaned_def)
  have s1: "strftime_Y_m (2024, Suc 0, 15, 0) = ''2024-01''" by code_simp
  have s2: "strftime_Y_m (2024, 3, 5, 0) = ''2024-03''" by code_simp
  from add_derived_columns_frame [OF c] obtain out where
    o: "add_derived_columns example_cleaned = Inr out"
    and i: "f_index out = f_index example_cleaned"
    and f: "f_columns out = f_columns example_cleaned @
             [(''transaction_type'',
               StrCol (map (\<lambda>a. Some (if (case a of Some x \<Rightarrow> 0 < x | None \<Rightarrow> False)
                                       then ''Income'' else ''Expense'')) ?xs)),
              (''abs_amount'', FloatCol (map (map_option abs) ?xs)),
              (''month'', PeriodCol (map (map_option (\<lambda>t. (fst t, fst (snd t)))) ?ds)),
              (''year'', IntCol (map (map_option (\<lambda>t. int (fst t))) ?ds)),
              (''month_year'', StrCol (map (map_option strftime_Y_m) ?ds))]"
    by (elim exE conjE) (rule that; assumption)
  have "out = \<lparr>f_index = f_index out, f_columns = f_columns out\<rparr>" by simp
  also have "\<dots> = \<lparr>f_index = [0, 1],
          f_columns =
            [(''date'', DatetimeCol [Some (2024, 1, 15, 0), Some (2024, 3, 5, 0)]),
             (''description'', StrCol [Some ''Unknown'', Some ''Coffee'']),
             (''amount'', FloatCol [Some 1234.56, Some (-4.5)]),
             (''transaction_type'', StrCol [Some ''Income'', Some ''Expense'']),
             (''abs_amount'', FloatCol [Some 1234.56, Some 4.5]),
             (''month'', PeriodCol [Some (2024, 1), Some (2024, 3)]),
             (''year'', IntCol [Some 2024, Some 2024]),
             (''month_year'', StrCol [Some ''2024-01'', Some ''2024-03''])]\<rparr>"
    unfolding i f by (simp add: example_cleaned_def s1 s2)
  finally have full: "add_derived_columns example_cleaned = Inr \<lparr>f_index = [0, 1],
          f_columns =
            [(''date'', DatetimeCol [Some (2024, 1, 15, 0), Some (2024, 3, 5, 0)]),
             (''description'', StrCol [Some ''Unknown'', Some ''Coffee'']),
             (''amount'', FloatCol [Some 1234.56, Some (-4.5)]),
             (''transaction_type'', StrCol [Some ''Income'', Some ''Expense'']),
             (''abs_amount'', FloatCol [Some 1234.56, Some 4.5]),
             (''month'', PeriodCol [Some (2024, 1), Some (2024, 3)]),
             (''year'', IntCol [Some 2024, Some 2024]),
             (''month_year'', StrCol [Some ''2024-01'', Some ''2024-03''])]\<rparr>"
    unfolding o by (rule arg_cong)
  have e: "f_columns ?e = [(''date'', DatetimeCol []), (''description'', StrCol []),
                          (''amount'', FloatCol [])]"
    by simp
  from add_derived_columns_frame [OF e] obtain out' where
    o': "add_derived_columns ?e = Inr out'"
    and i': "f_index out' = f_index ?e"
    and f': "f_columns out' = f_columns ?e @
             [(''transaction_type'',
               StrCol (map (\<lambda>a. Some (if (case a of Some x \<Rightarrow> 0 < x | None \<Rightarrow> False)
                                       then ''Income'' else ''Expense''))
                           ([] :: real option list))),
              (''abs_amount'', FloatCol (map (map_option abs) ([] :: real option list))),
              (''month'', PeriodCol (map (map_option (\<lambda>t. (fst t, fst (snd t))))
                                        ([] :: timestamp option list))),
              (''year'', IntCol (map (map_option (\<lambda>t. int (fst t)))
                                    ([] :: timestamp option list))),
              (''month_year'', StrCol (map (map_option strftime_Y_m)
                                          ([] :: timestamp option list)))]"
    by (elim exE conjE) (rule that; assumption)
  have "out' = \<lparr>f_index = f_index out', f_columns = f_columns out'\<rparr>" by simp
  also have "\<dots> = \<lparr>f_index = [],
          f_columns = [(''date'', DatetimeCol []), (''description'', StrCol []),
                       (''amount'', FloatCol []), (''transaction_type'', StrCol []),
                       (''abs_amount'', FloatCol []), (''month'', PeriodCol []),
                       (''year'', IntCol []), (''month_year'', StrCol [])]\<rparr>"
    unfolding i' f' by simp
  finally have empty: "add_derived_columns ?e = Inr \<lparr>f_index = [],
          f_columns = [(''date'', DatetimeCol []), (''description'', StrCol []),
                       (''amount'', FloatCol []), (''transaction_type'', StrCol []),
                       (''abs_amount'', FloatCol []), (''month'', PeriodCol []),
                       (''year'', IntCol []), (''month_year'', StrCol [])]\<rparr>"
    unfolding o' by (rule arg_cong)
  from full empty show ?thesis by (rule conjI)
qed

end
